theory Spec2Isabelle
  imports Complex_Main "HOL-Library.Sublist" "HOL-Library.Multiset"
begin

section \<open>Python strings\<close>

text \<open>
  Strings are lists of characters. Only the ASCII part of Python's \<open>str\<close> methods is
  modelled: \<open>lower\<close> maps \<open>A\<close>..\<open>Z\<close>, and \<open>strip\<close> removes the ASCII white space
  (\<open>str.isspace\<close> below code point 128: 9..13, 28..31 and 32).
\<close>

definition lower_char :: "char \<Rightarrow> char" where
  "lower_char c =
     (let n = (of_char c :: nat) in if 65 \<le> n \<and> n \<le> 90 then char_of (n + 32) else c)"

definition lower :: "string \<Rightarrow> string" where
  "lower s = map lower_char s"

definition is_space :: "char \<Rightarrow> bool" where
  "is_space c = (let n = (of_char c :: nat) in (9 \<le> n \<and> n \<le> 13) \<or> (28 \<le> n \<and> n \<le> 32))"

definition rstrip_chars :: "(char \<Rightarrow> bool) \<Rightarrow> string \<Rightarrow> string" where
  "rstrip_chars P s = rev (dropWhile P (rev s))"

text \<open>\<open>s.strip()\<close>\<close>

definition strip :: "string \<Rightarrow> string" where
  "strip s = dropWhile is_space (rstrip_chars is_space s)"

text \<open>\<open>s.rstrip('/')\<close>\<close>

definition rstrip_slash :: "string \<Rightarrow> string" where
  "rstrip_slash s = rstrip_chars (\<lambda>c. c = CHR ''/'') s"

text \<open>\<open>sub in s\<close> for strings: \<open>sub\<close> occurs in \<open>s\<close> as a contiguous block.\<close>

fun is_substring :: "string \<Rightarrow> string \<Rightarrow> bool" where
  "is_substring sub [] = (sub = [])"
| "is_substring sub (c # cs) = (prefix sub (c # cs) \<or> is_substring sub cs)"

text \<open>
  \<open>s.split(sep)\<close> for a non-empty separator: a scan from the left; at an occurrence of
  the separator the current piece ends and the separator's characters are skipped.
\<close>

fun split_go :: "string \<Rightarrow> nat \<Rightarrow> string \<Rightarrow> string \<Rightarrow> string list" where
  "split_go sep skip acc [] = [acc]"
| "split_go sep skip acc (c # cs) =
     (if 0 < skip then split_go sep (skip - 1) acc cs
      else if prefix sep (c # cs) then acc # split_go sep (length sep - 1) [] cs
      else split_go sep 0 (acc @ [c]) cs)"

definition split :: "string \<Rightarrow> string \<Rightarrow> string list" where
  "split sep s = split_go sep 0 [] s"

section \<open>Competitor URL resolver\<close>

subsection \<open>Generic paths and help-URL discovery\<close>

definition get_common_paths :: "string list" where
  "get_common_paths =
     [''/help'', ''/help/'', ''/support'', ''/support/'', ''/docs'', ''/docs/'',
      ''/documentation'', ''/blog'', ''/blog/'', ''/features'', ''/features/'',
      ''/product'', ''/products'', ''/resources'', ''/resources/'', ''/learn'',
      ''/guides'', ''/faq'', ''/knowledge-base'', ''/articles'']"

definition help_keywords :: "string list" where
  "help_keywords =
     [''help'', ''support'', ''docs'', ''documentation'', ''knowledge'', ''faq'', ''guide'',
      ''learn'', ''resources'', ''how-to'', ''blog'', ''features'', ''product'']"

text \<open>
  \<open>base_url_clean.split('//')[1].split('/')[0]\<close>, with the bare \<open>except\<close> that falls back
  to the cleaned base URL when there is no second piece.
\<close>

definition base_domain_of :: "string \<Rightarrow> string" where
  "base_domain_of base_url_clean =
     (case split ''//'' base_url_clean of
        _ # piece # _ \<Rightarrow> (case split ''/'' piece of d # _ \<Rightarrow> d | [] \<Rightarrow> base_url_clean)
      | _ \<Rightarrow> base_url_clean)"

text \<open>Step 1 of \<open>discover_help_urls\<close>: the loop over the generic paths.\<close>

fun add_common_paths :: "string \<Rightarrow> string list \<Rightarrow> string list \<Rightarrow> string list" where
  "add_common_paths base_url_clean discovered_urls [] = discovered_urls"
| "add_common_paths base_url_clean discovered_urls (path # paths) =
     (let url = base_url_clean @ path
      in add_common_paths base_url_clean
           (if url \<notin> set discovered_urls then discovered_urls @ [url] else discovered_urls)
           paths)"

text \<open>
  Step 2: the loop over the anchors of the homepage. An anchor is the pair of its \<open>href\<close>
  attribute and its text as \<open>get_text(strip=True)\<close> returns it.
\<close>

definition is_help_link :: "string \<Rightarrow> string \<Rightarrow> bool" where
  "is_help_link href link_text =
     list_ex (\<lambda>kw. is_substring kw (lower href) \<or> is_substring kw link_text) help_keywords"

fun add_page_links :: "string \<Rightarrow> string list \<Rightarrow> (string \<times> string) list \<Rightarrow> string list" where
  "add_page_links base_domain discovered_urls [] = discovered_urls"
| "add_page_links base_domain discovered_urls ((href, text_of_link) # links) =
     (let link_text = lower text_of_link in
      if is_help_link href link_text then
        (if prefix ''/'' href \<or> prefix ''http'' href then
           (let full_url = (if prefix ''/'' href then ''https://'' @ base_domain @ href else href) in
            if is_substring base_domain full_url \<or> is_substring ''help.'' full_url
               \<or> is_substring ''support.'' full_url
            then add_page_links base_domain
                   (if full_url \<notin> set discovered_urls then discovered_urls @ [full_url]
                    else discovered_urls) links
            else add_page_links base_domain discovered_urls links)
         else add_page_links base_domain discovered_urls links)
      else add_page_links base_domain discovered_urls links)"

text \<open>
  \<open>discover_help_urls\<close>. The parameter \<open>anchors\<close> stands for BeautifulSoup's
  \<open>soup.find_all('a', href=True)\<close> on the parsed markup.
\<close>

definition discover_help_urls ::
  "(string \<Rightarrow> (string \<times> string) list) \<Rightarrow> string \<Rightarrow> string \<Rightarrow> string list" where
  "discover_help_urls anchors base_url main_page_html =
     (let base_url_clean = rstrip_slash base_url;
          base_domain = base_domain_of base_url_clean;
          discovered_urls = add_common_paths base_url_clean [] get_common_paths;
          discovered_urls' =
            (if main_page_html \<noteq> [] then
               add_page_links base_domain discovered_urls (anchors main_page_html)
             else discovered_urls)
      in take 10 discovered_urls')"

subsection \<open>Merging the oracle's URLs with the discovered ones\<close>

text \<open>
  The loop of \<open>get_competitor_content_for_capability\<close> that removes duplicates from
  \<open>llm_urls + discovered_help_urls\<close> with a \<open>seen\<close> set.
\<close>

fun unique_loop :: "string set \<Rightarrow> string list \<Rightarrow> string list \<Rightarrow> string list" where
  "unique_loop seen unique_urls [] = unique_urls"
| "unique_loop seen unique_urls (url # urls) =
     (if url \<notin> seen then unique_loop (insert url seen) (unique_urls @ [url]) urls
      else unique_loop seen unique_urls urls)"

definition merge_urls :: "string list \<Rightarrow> string list \<Rightarrow> string list" where
  "merge_urls llm_urls discovered_help_urls =
     unique_loop {} [] (llm_urls @ discovered_help_urls)"

text \<open>
  The specification's reading of "de-duplicated keeping the first occurrence": the head
  stays, and its later copies are removed from the rest.
\<close>

fun keep_first :: "'a list \<Rightarrow> 'a list" where
  "keep_first [] = []"
| "keep_first (x # xs) = x # keep_first (removeAll x xs)"

section \<open>Oracle interface\<close>

text \<open>
  Exceptions are values. \<open>Exception\<close> carries the message of a \<open>raise Exception(...)\<close> of the
  source; the others are raised by the library or the interpreter.
\<close>

datatype error =
    Exception string
  | JSONDecodeError
  | AttributeError
  | ValueError string
  | HTTPException nat string

text \<open>
  A key of a decoded JSON object is missing, holds \<open>null\<close>, or holds a value. The oracle's
  objects are modelled after decoding, at the types of the wire shapes: a key that is
  present and not \<open>null\<close> holds a value of the type the prompt asks for (an integer volume,
  a decimal cost per click as a rational, strings), and keys outside the wire shape are
  not represented.
\<close>

datatype 'a jfield = Missing | Null | Val 'a

text \<open>\<open>d.get(k)\<close>: \<open>None\<close> for a missing key and for \<open>null\<close>.\<close>

definition get :: "'a jfield \<Rightarrow> 'a option" where
  "get f = (case f of Val v \<Rightarrow> Some v | _ \<Rightarrow> None)"

text \<open>\<open>d.get(k, default)\<close>: the default only for a missing key.\<close>

definition get_default :: "'a jfield \<Rightarrow> 'a \<Rightarrow> 'a option" where
  "get_default f d = (case f of Missing \<Rightarrow> Some d | Null \<Rightarrow> None | Val v \<Rightarrow> Some v)"

text \<open>
  \<open>x or d\<close> where \<open>x\<close> is \<open>None\<close> or a value whose truth is \<open>truthy\<close>: zero and the empty
  string are false.
\<close>

definition py_or :: "('a \<Rightarrow> bool) \<Rightarrow> 'a option \<Rightarrow> 'a \<Rightarrow> 'a" where
  "py_or truthy x d = (case x of Some v \<Rightarrow> if truthy v then v else d | None \<Rightarrow> d)"

definition truthy_int :: "int \<Rightarrow> bool" where
  "truthy_int v = (v \<noteq> 0)"

definition truthy_rat :: "rat \<Rightarrow> bool" where
  "truthy_rat v = (v \<noteq> 0)"

definition truthy_str :: "string \<Rightarrow> bool" where
  "truthy_str v = (v \<noteq> [])"

text \<open>The capability object \<open>{name, description, category, competitor_search_terms, common_url_paths}\<close>.\<close>

record capability =
  cap_name :: "string jfield"
  cap_description :: "string jfield"
  cap_category :: "string jfield"
  cap_competitor_search_terms :: "string list jfield"
  cap_common_url_paths :: "string list jfield"

text \<open>A dictionary is true when it has a key.\<close>

definition capability_nonempty :: "capability \<Rightarrow> bool" where
  "capability_nonempty c =
     (cap_name c \<noteq> Missing \<or> cap_description c \<noteq> Missing \<or> cap_category c \<noteq> Missing
      \<or> cap_competitor_search_terms c \<noteq> Missing \<or> cap_common_url_paths c \<noteq> Missing)"

text \<open>The competitor-capability guess \<open>{competitor_name, likely_feature_name, probable_urls, search_query, terminology_hints}\<close>.\<close>

record competitor_capability =
  cc_competitor_name :: "string jfield"
  cc_likely_feature_name :: "string jfield"
  cc_probable_urls :: "string list jfield"
  cc_search_query :: "string jfield"
  cc_terminology_hints :: "string list jfield"

definition competitor_capability_nonempty :: "competitor_capability \<Rightarrow> bool" where
  "competitor_capability_nonempty c =
     (cc_competitor_name c \<noteq> Missing \<or> cc_likely_feature_name c \<noteq> Missing
      \<or> cc_probable_urls c \<noteq> Missing \<or> cc_search_query c \<noteq> Missing
      \<or> cc_terminology_hints c \<noteq> Missing)"

text \<open>
  A keyword object of the oracle: \<open>{keyword, <volume_field>, cpc, difficulty}\<close> in keyword
  extraction, with \<open>relevance_score\<close> and \<open>found_in\<close> in keyword mapping.
\<close>

record oracle_keyword =
  ok_keyword :: "string jfield"
  ok_weekly_volume :: "int jfield"
  ok_monthly_volume :: "int jfield"
  ok_yearly_volume :: "int jfield"
  ok_cpc :: "rat jfield"
  ok_difficulty :: "string jfield"
  ok_relevance_score :: "int jfield"
  ok_found_in :: "string jfield"

definition oracle_keyword_nonempty :: "oracle_keyword \<Rightarrow> bool" where
  "oracle_keyword_nonempty k =
     (ok_keyword k \<noteq> Missing \<or> ok_weekly_volume k \<noteq> Missing \<or> ok_monthly_volume k \<noteq> Missing
      \<or> ok_yearly_volume k \<noteq> Missing \<or> ok_cpc k \<noteq> Missing \<or> ok_difficulty k \<noteq> Missing
      \<or> ok_relevance_score k \<noteq> Missing \<or> ok_found_in k \<noteq> Missing)"

text \<open>\<open>kw.get(volume_field)\<close> for a field name.\<close>

definition get_volume :: "oracle_keyword \<Rightarrow> string \<Rightarrow> int option" where
  "get_volume k field =
     (if field = ''weekly_volume'' then get (ok_weekly_volume k)
      else if field = ''monthly_volume'' then get (ok_monthly_volume k)
      else if field = ''yearly_volume'' then get (ok_yearly_volume k)
      else None)"

text \<open>
  The four prompts of the source, by the values they are built from (after the slices
  the source takes).
\<close>

datatype prompt =
    CapabilityPrompt string string "string list" string
  | CompetitorUrlsPrompt capability string string string
  | ArticleKeywordsPrompt string string "string list" string string string
  | MappingPrompt string string string "string list" string string

text \<open>
  The external collaborators. \<open>chat_completion\<close> returns the oracle's text or raises;
  each \<open>loads\<close> is \<open>json.loads\<close> on the text between the braces followed by the lookup of
  the top-level key the caller reads (\<open>None\<close> when \<open>json.loads\<close> raises); \<open>http_get\<close> is the
  response body of the \<open>n\<close>-th request of the competitor agent (\<open>None\<close> for a timeout, an
  HTTP error status or a transport error); \<open>soup_title\<close>, \<open>soup_headings\<close>, \<open>soup_content\<close> and
  \<open>find_all_a\<close> are the BeautifulSoup queries of \<open>_extract_content\<close> and
  \<open>discover_help_urls\<close> on the markup (the texts of the \<open>title\<close> element, of the
  \<open>h1\<close>..\<open>h4\<close> elements, the white-space-normalised text of the main content area, and
  the anchors as pairs of \<open>href\<close> and text); \<open>article_response\<close> and the \<open>art_\<close> queries are
  their counterparts in the article scraper (\<open>backend/scraper.py\<close>); \<open>library_message\<close> is
  \<open>str(e)\<close> for an exception raised by a library. BeautifulSoup's queries are taken as
  total: they do not raise. The oracle is a function of the prompt.
\<close>

record env =
  chat_completion :: "prompt \<Rightarrow> error + string"
  loads_capability :: "string \<Rightarrow> capability jfield option"
  loads_competitor_capability :: "string \<Rightarrow> competitor_capability jfield option"
  loads_keywords :: "string \<Rightarrow> oracle_keyword list jfield option"
  loads_mapping :: "string \<Rightarrow> oracle_keyword jfield option"
  http_get :: "nat \<Rightarrow> string \<Rightarrow> string option"
  soup_title :: "string \<Rightarrow> string"
  soup_headings :: "string \<Rightarrow> string list"
  soup_content :: "string \<Rightarrow> string"
  find_all_a :: "string \<Rightarrow> (string \<times> string) list"
  article_response :: "string \<Rightarrow> error + string"
  art_title :: "string \<Rightarrow> string"
  art_h1 :: "string \<Rightarrow> string"
  art_headings :: "string \<Rightarrow> string list"
  art_content :: "string \<Rightarrow> string"
  library_message :: "error \<Rightarrow> string"

subsection \<open>The JSON object in the oracle's text\<close>

text \<open>\<open>s.find(c)\<close> and \<open>s.rfind(c)\<close> for a character: an index, or \<open>-1\<close>.\<close>

fun find_from :: "char \<Rightarrow> string \<Rightarrow> int \<Rightarrow> int" where
  "find_from c [] i = -1"
| "find_from c (x # xs) i = (if x = c then i else find_from c xs (i + 1))"

definition str_find :: "char \<Rightarrow> string \<Rightarrow> int" where
  "str_find c s = find_from c s 0"

definition str_rfind :: "char \<Rightarrow> string \<Rightarrow> int" where
  "str_rfind c s =
     (let r = str_find c (rev s) in if r = -1 then -1 else int (length s) - 1 - r)"

text \<open>\<open>s[a:b]\<close> for \<open>0 \<le> a\<close> and \<open>0 \<le> b\<close>.\<close>

definition slice :: "string \<Rightarrow> int \<Rightarrow> int \<Rightarrow> string" where
  "slice s a b = drop (nat a) (take (nat b) s)"

text \<open>
  The parse step shared by the four oracle calls: \<open>None\<close> when the guard
  \<open>json_start == -1 or json_end <= json_start\<close> holds, otherwise \<open>response[json_start:json_end]\<close>.
\<close>

definition json_span :: "string \<Rightarrow> string option" where
  "json_span response =
     (let json_start = str_find (CHR ''{'') response;
          json_end = str_rfind (CHR ''}'') response + 1
      in if json_start = -1 \<or> json_end \<le> json_start then None
         else Some (slice response json_start json_end))"

section \<open>Keyword extraction and keyword mapping\<close>

definition EXCLUDED_PRODUCT_TERMS :: "string list" where
  "EXCLUDED_PRODUCT_TERMS =
     [''adaptive form'', ''adaptive forms'', ''aem sites'', ''aem site'', ''aem forms'',
      ''aem form'', ''aem as a cloud service'', ''aem cloud service'', ''aem assets'',
      ''aem asset'', ''adobe experience manager'', ''experience manager'', ''aem'']"

definition PRODUCT_COMPETITORS :: "string \<Rightarrow> (string \<times> string) list option" where
  "PRODUCT_COMPETITORS product =
     (if product = ''Assets'' then
        Some [(''Bynder'', ''https://www.bynder.com/''), (''Brandfolder'', ''https://brandfolder.com/''),
              (''Canto'', ''https://www.canto.com/''), (''Widen'', ''https://www.widen.com/'')]
      else if product = ''Forms'' then
        Some [(''Typeform'', ''https://www.typeform.com/''), (''Jotform'', ''https://www.jotform.com/''),
              (''Formstack'', ''https://www.formstack.com/''), (''Wufoo'', ''https://www.wufoo.com/'')]
      else if product = ''Sites'' then
        Some [(''Wix'', ''https://www.wix.com/''), (''Squarespace'', ''https://www.squarespace.com/''),
              (''Webflow'', ''https://webflow.com/''), (''WordPress'', ''https://wordpress.com/'')]
      else None)"

definition get_volume_field_name :: "string \<Rightarrow> error + string" where
  "get_volume_field_name time_range =
     (if time_range = ''week'' then Inr ''weekly_volume''
      else if time_range = ''year'' then Inr ''yearly_volume''
      else if time_range = ''month'' then Inr ''monthly_volume''
      else Inl (Exception (''Invalid time_range: '' @ time_range @ ''. Must be: week, month, or year'')))"

definition generate_semrush_url :: "string \<Rightarrow> string" where
  "generate_semrush_url keyword =
     ''https://www.semrush.com/analytics/keywordmagic/?q=''
       @ map (\<lambda>c. if c = CHR '' '' then CHR ''+'' else c) keyword @ ''&db=us''"

definition is_excluded_keyword :: "string \<Rightarrow> bool" where
  "is_excluded_keyword keyword =
     (let keyword_lower = strip (lower keyword)
      in list_ex (\<lambda>t. is_substring t keyword_lower) EXCLUDED_PRODUCT_TERMS)"

subsection \<open>Keyword dictionaries\<close>

text \<open>
  An article keyword as \<open>extract_article_keywords\<close> returns it and as
  \<open>get_competitor_keywords\<close> reads it (with \<open>get\<close>, so that a key may be absent).
\<close>

record article_keyword =
  ak_keyword :: "string jfield"
  ak_search_volume :: "int option"
  ak_cpc :: "rat option"
  ak_difficulty :: "string option"
  ak_tool :: string
  ak_source :: string
  ak_semrush_url :: string

text \<open>An entry of \<open>article_keywords_clean\<close>.\<close>

record clean_keyword =
  ac_keyword :: string
  ac_search_volume :: "int option"
  ac_cpc :: "rat option"
  ac_difficulty :: "string option"
  ac_tool :: string
  ac_source :: string
  ac_semrush_url :: string

text \<open>An entry of \<open>competitor_terms_for_keyword\<close>: one competitor's term for one article keyword.\<close>

record competitor_term =
  ct_keyword :: string
  ct_competitor :: string
  ct_search_volume :: int
  ct_cpc :: rat
  ct_difficulty :: string
  ct_relevance_score :: int
  ct_found_in :: "string option"

text \<open>An entry of \<open>competitor_keywords_all\<close>: a term aggregated over the competitors.\<close>

record competitor_keyword =
  ck_keyword :: string
  ck_search_volume :: int
  ck_cpc :: rat
  ck_difficulty :: string
  ck_tool :: string
  ck_source :: string
  ck_used_by :: "string list"
  ck_semrush_url :: string

text \<open>An entry of \<open>all_keywords_for_suggestion\<close>.\<close>

record pool_keyword =
  pk_keyword :: string
  pk_search_volume :: "int option"
  pk_cpc :: "rat option"
  pk_difficulty :: "string option"
  pk_tool :: string
  pk_source :: string
  pk_used_by :: "string list"
  pk_relevance_score :: int
  pk_semrush_url :: string

text \<open>An entry of \<open>suggested_keywords\<close>.\<close>

record suggested_keyword =
  sk_keyword :: string
  sk_search_volume :: "int option"
  sk_cpc :: "rat option"
  sk_difficulty :: "string option"
  sk_tool :: string
  sk_source :: string
  sk_used_by :: "string list"
  sk_semrush_url :: string

record keyword_mapping =
  km_article_keyword :: string
  km_article_search_volume :: "int option"
  km_competitor_keywords :: "competitor_term list"

text \<open>A competitor's scraped content, as the capability content scraper returns it.\<close>

record competitor_content =
  co_competitor_name :: string
  co_competitor_url :: string
  co_capability_name :: "string option"
  co_competitor_feature_name :: "string option"
  co_urls_scraped :: "string list"
  co_content :: string
  co_headings :: "string list"
  co_terminology_hints :: "string list"
  co_pages_scraped :: nat

record keyword_data =
  kd_article_keywords :: "clean_keyword list"
  kd_competitor_keywords :: "competitor_keyword list"
  kd_suggested_keywords :: "suggested_keyword list"
  kd_keyword_mappings :: "keyword_mapping list"

subsection \<open>\<open>extract_article_keywords\<close>\<close>

text \<open>The loop that validates and filters the oracle's keywords.\<close>

fun filter_keywords ::
  "string \<Rightarrow> article_keyword list \<Rightarrow> oracle_keyword list \<Rightarrow> error + article_keyword list" where
  "filter_keywords volume_field filtered_keywords [] = Inr filtered_keywords"
| "filter_keywords volume_field filtered_keywords (kw # kws) =
     (case get_default (ok_keyword kw) [] of
        None \<Rightarrow> filter_keywords volume_field filtered_keywords kws
      | Some keyword_text \<Rightarrow>
          if keyword_text = [] then filter_keywords volume_field filtered_keywords kws
          else (case get_volume kw volume_field of
             None \<Rightarrow> Inl (Exception (''OpenAI did not return search volume for keyword: '' @ keyword_text))
           | Some kw_volume \<Rightarrow>
               (case get (ok_cpc kw) of
                  None \<Rightarrow> Inl (Exception (''OpenAI did not return CPC for keyword: '' @ keyword_text))
                | Some kw_cpc \<Rightarrow>
                    (case get (ok_difficulty kw) of
                       None \<Rightarrow> Inl (Exception (''OpenAI did not return difficulty for keyword: '' @ keyword_text))
                     | Some kw_difficulty \<Rightarrow>
                         if \<not> is_excluded_keyword keyword_text then
                           filter_keywords volume_field
                             (filtered_keywords @
                                [\<lparr>ak_keyword = Val keyword_text, ak_search_volume = Some kw_volume,
                                  ak_cpc = Some kw_cpc, ak_difficulty = Some kw_difficulty,
                                  ak_tool = ''Azure OpenAI + Web Scraping'',
                                  ak_source = ''Article Content Analysis'',
                                  ak_semrush_url = generate_semrush_url keyword_text\<rparr>]) kws
                         else filter_keywords volume_field filtered_keywords kws))))"

definition extract_article_keywords ::
  "env \<Rightarrow> string \<Rightarrow> string list \<Rightarrow> string \<Rightarrow> string \<Rightarrow> string \<Rightarrow> error + article_keyword list" where
  "extract_article_keywords env title headings content url time_range =
     (case get_volume_field_name time_range of
        Inl e \<Rightarrow> Inl e
      | Inr volume_field \<Rightarrow>
     (case chat_completion env
             (ArticleKeywordsPrompt url title (take 20 headings) (take 4000 content) time_range volume_field) of
        Inl e \<Rightarrow> Inl e
      | Inr response \<Rightarrow>
     (case json_span response of
        None \<Rightarrow> Inl (Exception ''OpenAI returned invalid JSON response'')
      | Some json_text \<Rightarrow>
     (case loads_keywords env json_text of
        None \<Rightarrow> Inl JSONDecodeError
      | Some data \<Rightarrow>
     (case get data of
        None \<Rightarrow> Inl (Exception ''OpenAI returned no keywords'')
      | Some keywords \<Rightarrow>
          if keywords = [] then Inl (Exception ''OpenAI returned no keywords'')
          else (case filter_keywords volume_field [] keywords of
             Inl e \<Rightarrow> Inl e
           | Inr filtered_keywords \<Rightarrow>
               if filtered_keywords = [] then
                 Inl (Exception ''All extracted keywords were filtered out (contained product names)'')
               else Inr (take 10 filtered_keywords)))))))"

subsection \<open>\<open>find_competitor_keyword_for_article_keyword\<close>\<close>

text \<open>
  The result is \<open>None\<close> when the text holds no object, otherwise the \<open>competitor_keyword\<close>
  entry of the decoded object.
\<close>

definition find_competitor_keyword_for_article_keyword ::
  "env \<Rightarrow> string \<Rightarrow> string \<Rightarrow> string \<Rightarrow> string \<Rightarrow> string list \<Rightarrow> string
     \<Rightarrow> error + oracle_keyword jfield option" where
  "find_competitor_keyword_for_article_keyword env article_keyword article_context
       competitor_name competitor_text competitor_headings time_range =
     (case get_volume_field_name time_range of
        Inl e \<Rightarrow> Inl e
      | Inr volume_field \<Rightarrow>
     (case chat_completion env
             (MappingPrompt article_keyword (take 500 article_context) competitor_name
                (take 15 competitor_headings) (take 3000 competitor_text) volume_field) of
        Inl e \<Rightarrow> Inl e
      | Inr response \<Rightarrow>
     (case json_span response of
        None \<Rightarrow> Inr None
      | Some json_text \<Rightarrow>
     (case loads_mapping env json_text of
        None \<Rightarrow> Inl JSONDecodeError
      | Some data \<Rightarrow> Inr (Some data)))))"

subsection \<open>\<open>get_competitor_keywords\<close>\<close>

text \<open>
  The body of the loop over the competitors, for one article keyword and one competitor:
  the term that is appended to \<open>competitor_terms_for_keyword\<close>, or \<open>None\<close> when the
  competitor is skipped (no content, an exception caught by the \<open>except\<close>, no usable
  answer, or an excluded term).
\<close>

definition competitor_term_for ::
  "env \<Rightarrow> string \<Rightarrow> string \<Rightarrow> string \<Rightarrow> string \<Rightarrow> string \<Rightarrow> competitor_content
     \<Rightarrow> competitor_term option" where
  "competitor_term_for env article_kw article_title article_content time_range volume_field cmp_content =
     (let comp_name = co_competitor_name cmp_content;
          comp_text = co_content cmp_content;
          comp_headings = co_headings cmp_content
      in if comp_text = [] then None
         else
          (case find_competitor_keyword_for_article_keyword env article_kw
                  (article_title @ ''. '' @ take 300 article_content)
                  comp_name comp_text comp_headings time_range of
             Inl e \<Rightarrow> None
           | Inr None \<Rightarrow> None
           | Inr (Some competitor_kw) \<Rightarrow>
               (case get competitor_kw of
                  None \<Rightarrow> None
                | Some ckw \<Rightarrow>
                    if \<not> oracle_keyword_nonempty ckw then None
                    else (case get_default (ok_keyword ckw) [] of
                       None \<Rightarrow> None
                     | Some ckw_text \<Rightarrow>
                         if ckw_text \<noteq> [] \<and> \<not> is_excluded_keyword ckw_text then
                           Some \<lparr>ct_keyword = ckw_text,
                                 ct_competitor = comp_name,
                                 ct_search_volume =
                                   py_or truthy_int (get_volume ckw volume_field)
                                     (py_or truthy_int (get (ok_monthly_volume ckw)) 500),
                                 ct_cpc = py_or truthy_rat (get (ok_cpc ckw)) (3 / 2),
                                 ct_difficulty = py_or truthy_str (get (ok_difficulty ckw)) ''medium'',
                                 ct_relevance_score = py_or truthy_int (get (ok_relevance_score ckw)) 7,
                                 ct_found_in = get_default (ok_found_in ckw) ''content''\<rparr>
                         else None))))"

text \<open>
  \<open>xs.sort(key=..., reverse=True)\<close>: Python's sort is stable, also when reversed, so the
  result is the stable sort by the negated key.
\<close>

definition sort_desc :: "('a \<Rightarrow> int) \<Rightarrow> 'a list \<Rightarrow> 'a list" where
  "sort_desc key xs = sort_key (\<lambda>x. - key x) xs"

text \<open>The search for an existing aggregated keyword: the index of the first match.\<close>

fun find_existing :: "competitor_keyword list \<Rightarrow> string \<Rightarrow> nat option" where
  "find_existing [] k = None"
| "find_existing (existing # rest) k =
     (if strip (lower (ck_keyword existing)) = strip (lower k) then Some 0
      else map_option Suc (find_existing rest k))"

text \<open>One term added to \<open>competitor_keywords_all\<close>.\<close>

definition add_term :: "competitor_keyword list \<Rightarrow> competitor_term \<Rightarrow> competitor_keyword list" where
  "add_term competitor_keywords_all t =
     (case find_existing competitor_keywords_all (ct_keyword t) of
        Some i \<Rightarrow>
          (let existing_kw = competitor_keywords_all ! i
           in if ct_competitor t \<notin> set (ck_used_by existing_kw) then
                competitor_keywords_all
                  [i := existing_kw\<lparr>ck_used_by := ck_used_by existing_kw @ [ct_competitor t]\<rparr>]
              else competitor_keywords_all)
      | None \<Rightarrow>
          competitor_keywords_all @
            [\<lparr>ck_keyword = ct_keyword t, ck_search_volume = ct_search_volume t,
              ck_cpc = ct_cpc t, ck_difficulty = ct_difficulty t,
              ck_tool = ''Competitor Website Scraping'', ck_source = ''Competitor Analysis'',
              ck_used_by = [ct_competitor t],
              ck_semrush_url = generate_semrush_url (ct_keyword t)\<rparr>])"

text \<open>
  The lookup of the article keyword's own data. \<open>akw.get('keyword', '').lower()\<close> raises
  on a \<open>null\<close> keyword.
\<close>

fun find_article_kw_data :: "article_keyword list \<Rightarrow> string \<Rightarrow> error + article_keyword option" where
  "find_article_kw_data [] article_kw = Inr None"
| "find_article_kw_data (akw # rest) article_kw =
     (case get_default (ak_keyword akw) [] of
        None \<Rightarrow> Inl AttributeError
      | Some k \<Rightarrow> if lower k = lower article_kw then Inr (Some akw)
                  else find_article_kw_data rest article_kw)"

text \<open>The loop over the article keywords, on the pair \<open>(keyword_mappings, competitor_keywords_all)\<close>.\<close>

fun map_keywords ::
  "env \<Rightarrow> article_keyword list \<Rightarrow> string \<Rightarrow> string \<Rightarrow> string \<Rightarrow> string \<Rightarrow> competitor_content list
     \<Rightarrow> keyword_mapping list \<times> competitor_keyword list \<Rightarrow> string list
     \<Rightarrow> error + keyword_mapping list \<times> competitor_keyword list" where
  "map_keywords env article_keywords article_title article_content time_range volume_field
       competitor_content st [] = Inr st"
| "map_keywords env article_keywords article_title article_content time_range volume_field
       competitor_content (keyword_mappings, competitor_keywords_all) (article_kw # rest) =
     (case find_article_kw_data article_keywords article_kw of
        Inl e \<Rightarrow> Inl e
      | Inr article_kw_data \<Rightarrow>
          (let competitor_terms_for_keyword =
                 List.map_filter
                   (competitor_term_for env article_kw article_title article_content time_range
                      volume_field)
                   competitor_content
           in if competitor_terms_for_keyword \<noteq> [] then
                (let sorted_terms = sort_desc ct_search_volume competitor_terms_for_keyword
                 in map_keywords env article_keywords article_title article_content time_range
                      volume_field competitor_content
                      (keyword_mappings @
                         [\<lparr>km_article_keyword = article_kw,
                           km_article_search_volume =
                             (case article_kw_data of Some d \<Rightarrow> ak_search_volume d | None \<Rightarrow> Some 0),
                           km_competitor_keywords = sorted_terms\<rparr>],
                       foldl add_term competitor_keywords_all sorted_terms)
                      rest)
              else map_keywords env article_keywords article_title article_content time_range
                     volume_field competitor_content (keyword_mappings, competitor_keywords_all) rest))"

text \<open>\<open>article_keywords_clean\<close>.\<close>

definition clean_article_keywords :: "article_keyword list \<Rightarrow> clean_keyword list" where
  "clean_article_keywords article_keywords =
     List.map_filter
       (\<lambda>akw. case get (ak_keyword akw) of
                 None \<Rightarrow> None
               | Some k \<Rightarrow>
                   if k \<noteq> [] \<and> \<not> is_excluded_keyword k then
                     Some \<lparr>ac_keyword = k, ac_search_volume = ak_search_volume akw,
                           ac_cpc = ak_cpc akw, ac_difficulty = ak_difficulty akw,
                           ac_tool = ''Azure OpenAI + Web Scraping'',
                           ac_source = ''Article Content Analysis'',
                           ac_semrush_url = generate_semrush_url k\<rparr>
                   else None)
       (take 5 article_keywords)"

subsection \<open>Suggestion ranker\<close>

definition pool_of_article :: "clean_keyword \<Rightarrow> pool_keyword" where
  "pool_of_article akw =
     \<lparr>pk_keyword = ac_keyword akw, pk_search_volume = ac_search_volume akw, pk_cpc = ac_cpc akw,
      pk_difficulty = ac_difficulty akw, pk_tool = ac_tool akw, pk_source = ac_source akw,
      pk_used_by = [], pk_relevance_score = 10, pk_semrush_url = ac_semrush_url akw\<rparr>"

definition pool_of_competitor :: "competitor_keyword \<Rightarrow> pool_keyword" where
  "pool_of_competitor ckw =
     \<lparr>pk_keyword = ck_keyword ckw, pk_search_volume = Some (ck_search_volume ckw),
      pk_cpc = Some (ck_cpc ckw), pk_difficulty = Some (ck_difficulty ckw), pk_tool = ck_tool ckw,
      pk_source = ck_source ckw, pk_used_by = ck_used_by ckw, pk_relevance_score = 8,
      pk_semrush_url = ck_semrush_url ckw\<rparr>"

text \<open>\<open>all_keywords_for_suggestion\<close> before the sort: both pools, without the entries that have no volume.\<close>

definition all_keywords_for_suggestion ::
  "clean_keyword list \<Rightarrow> competitor_keyword list \<Rightarrow> pool_keyword list" where
  "all_keywords_for_suggestion article_keywords_clean competitor_keywords_all =
     map pool_of_article (filter (\<lambda>akw. ac_search_volume akw \<noteq> None) article_keywords_clean)
     @ map pool_of_competitor competitor_keywords_all"

text \<open>The sort key \<open>x.get('search_volume') or 0\<close>.\<close>

definition volume_key :: "pool_keyword \<Rightarrow> int" where
  "volume_key x = py_or truthy_int (pk_search_volume x) 0"

definition suggested_of :: "pool_keyword \<Rightarrow> suggested_keyword" where
  "suggested_of kw =
     \<lparr>sk_keyword = pk_keyword kw, sk_search_volume = pk_search_volume kw, sk_cpc = pk_cpc kw,
      sk_difficulty = pk_difficulty kw, sk_tool = pk_tool kw, sk_source = ''Highest Volume'',
      sk_used_by = pk_used_by kw, sk_semrush_url = pk_semrush_url kw\<rparr>"

text \<open>The loop that picks the suggestions, with its \<open>break\<close> at five.\<close>

fun suggest_loop ::
  "string set \<Rightarrow> suggested_keyword list \<Rightarrow> pool_keyword list \<Rightarrow> suggested_keyword list" where
  "suggest_loop seen_keywords suggested_keywords [] = suggested_keywords"
| "suggest_loop seen_keywords suggested_keywords (kw # kws) =
     (let keyword_text = lower (pk_keyword kw);
          fresh = (keyword_text \<noteq> [] \<and> keyword_text \<notin> seen_keywords);
          seen_keywords' = (if fresh then insert keyword_text seen_keywords else seen_keywords);
          suggested_keywords' =
            (if fresh then suggested_keywords @ [suggested_of kw] else suggested_keywords)
      in if length suggested_keywords' \<ge> 5 then suggested_keywords'
         else suggest_loop seen_keywords' suggested_keywords' kws)"

definition suggest_keywords ::
  "clean_keyword list \<Rightarrow> competitor_keyword list \<Rightarrow> suggested_keyword list" where
  "suggest_keywords article_keywords_clean competitor_keywords_all =
     suggest_loop {} []
       (sort_desc volume_key
          (all_keywords_for_suggestion article_keywords_clean competitor_keywords_all))"

definition get_competitor_keywords ::
  "env \<Rightarrow> article_keyword list \<Rightarrow> string \<Rightarrow> string \<Rightarrow> string \<Rightarrow> string \<Rightarrow> competitor_content list
     \<Rightarrow> error + keyword_data" where
  "get_competitor_keywords env article_keywords product time_range article_title article_content
       competitor_content =
     (case PRODUCT_COMPETITORS product of
        None \<Rightarrow> Inl (Exception (''No competitors configured for product: '' @ product))
      | Some competitors \<Rightarrow>
     (let article_kw_list =
            List.map_filter
              (\<lambda>kw. case get (ak_keyword kw) of
                       None \<Rightarrow> None
                     | Some k \<Rightarrow> if k \<noteq> [] then Some k else None)
              article_keywords
      in if article_kw_list = [] then
           Inl (Exception ''No article keywords provided for competitor analysis'')
         else
     (case get_volume_field_name time_range of
        Inl e \<Rightarrow> Inl e
      | Inr volume_field \<Rightarrow>
          if competitor_content = [] then
            Inl (Exception ''No competitor content provided - competitor websites must be scraped first'')
          else
     (case map_keywords env article_keywords article_title article_content time_range volume_field
             (take 2 competitor_content) ([], []) (take 5 article_kw_list) of
        Inl e \<Rightarrow> Inl e
      | Inr (keyword_mappings, competitor_keywords_all) \<Rightarrow>
          (let article_keywords_clean = clean_article_keywords article_keywords
           in Inr \<lparr>kd_article_keywords = article_keywords_clean,
                   kd_competitor_keywords = competitor_keywords_all,
                   kd_suggested_keywords =
                     suggest_keywords article_keywords_clean competitor_keywords_all,
                   kd_keyword_mappings = keyword_mappings\<rparr>)))))"

section \<open>Capability identification\<close>

definition identify_article_capability ::
  "env \<Rightarrow> string \<Rightarrow> string list \<Rightarrow> string \<Rightarrow> string \<Rightarrow> error + capability" where
  "identify_article_capability env title headings content url =
     (case chat_completion env (CapabilityPrompt url title (take 15 headings) (take 3000 content)) of
        Inl e \<Rightarrow> Inl e
      | Inr response \<Rightarrow>
     (case json_span response of
        None \<Rightarrow> Inl (Exception ''Failed to identify article capability - invalid JSON response'')
      | Some json_text \<Rightarrow>
     (case loads_capability env json_text of
        None \<Rightarrow> Inl JSONDecodeError
      | Some data \<Rightarrow>
     (case get data of
        None \<Rightarrow> Inl (Exception ''Failed to identify article capability'')
      | Some capability \<Rightarrow>
          if \<not> capability_nonempty capability
             \<or> \<not> (case get (cap_name capability) of None \<Rightarrow> False | Some n \<Rightarrow> truthy_str n)
          then Inl (Exception ''Failed to identify article capability'')
          else Inr capability))))"

definition find_competitor_capability_urls ::
  "env \<Rightarrow> capability \<Rightarrow> string \<Rightarrow> string \<Rightarrow> string \<Rightarrow> error + competitor_capability option" where
  "find_competitor_capability_urls env capability competitor_name competitor_base_url
       competitor_text =
     (case chat_completion env
             (CompetitorUrlsPrompt capability competitor_name competitor_base_url
                (take 2000 competitor_text)) of
        Inl e \<Rightarrow> Inl e
      | Inr response \<Rightarrow>
     (case json_span response of
        None \<Rightarrow> Inl (Exception (''Failed to find competitor URLs for '' @ competitor_name))
      | Some json_text \<Rightarrow>
     (case loads_competitor_capability env json_text of
        None \<Rightarrow> Inl JSONDecodeError
      | Some data \<Rightarrow> Inr (get data))))"

section \<open>Page fetcher and content extractor\<close>

text \<open>
  The state of the competitor agent: its request counter, and the list of the URLs
  requested so far by any fetcher (kept for the statements about what is fetched).
\<close>

record agent_state =
  request_count :: nat
  fetched :: "string list"

text \<open>
  \<open>_fetch_page\<close> with \<open>raise_on_error=False\<close>: every failure is caught and gives the empty
  string. The counter is advanced by \<open>_get_rotated_headers\<close> before the request.
\<close>

definition fetch_page :: "env \<Rightarrow> agent_state \<Rightarrow> string \<Rightarrow> string \<times> agent_state" where
  "fetch_page env st url =
     (let st' = st\<lparr>request_count := request_count st + 1, fetched := fetched st @ [url]\<rparr>
      in (case http_get env (request_count st') url of None \<Rightarrow> [] | Some html \<Rightarrow> html, st'))"

record page =
  pg_url :: string
  pg_title :: string
  pg_headings :: "string list"
  pg_content :: string

definition extract_content :: "env \<Rightarrow> string \<Rightarrow> string \<Rightarrow> page" where
  "extract_content env html url =
     (if html = [] then \<lparr>pg_url = url, pg_title = [], pg_headings = [], pg_content = []\<rparr>
      else \<lparr>pg_url = url, pg_title = soup_title env html,
             pg_headings =
               take 30 (filter (\<lambda>t. t \<noteq> [] \<and> length t > 3) (soup_headings env html)),
             pg_content = take 8000 (soup_content env html)\<rparr>)"

section \<open>Capability content scraper\<close>

record scrape_result =
  sr_competitor_name :: string
  sr_feature_name :: "string option"
  sr_urls_tried :: "(string \<times> string) list"
  sr_urls_successful :: "string list"
  sr_content_extracted :: string
  sr_headings :: "string list"
  sr_terminology_found :: "string list"

text \<open>
  The loop of \<open>scrape_capability_specific_urls\<close> over the candidates. No operation of its
  body raises in this model, so the \<open>except\<close> branch (status \<open>error\<close>) has no counterpart.
\<close>

fun try_urls :: "env \<Rightarrow> scrape_result \<times> agent_state \<Rightarrow> string list \<Rightarrow> scrape_result \<times> agent_state" where
  "try_urls env (result, st) [] = (result, st)"
| "try_urls env (result, st) (url # urls) =
     (let (html, st') = fetch_page env st url
      in if html \<noteq> [] \<and> length html > 500 then
           (let content_data = extract_content env html url
            in if pg_content content_data \<noteq> [] \<and> length (pg_content content_data) > 200 then
                 try_urls env
                   (result\<lparr>sr_urls_tried := sr_urls_tried result @ [(url, ''success'')],
                           sr_urls_successful := sr_urls_successful result @ [url],
                           sr_content_extracted :=
                             sr_content_extracted result
                               @ ([CHR 0x0A, CHR 0x0A] @ ''=== FROM '' @ url @ '' ==='' @ [CHR 0x0A])
                               @ take 4000 (pg_content content_data),
                           sr_headings := sr_headings result @ pg_headings content_data\<rparr>, st')
                   urls
               else try_urls env
                      (result\<lparr>sr_urls_tried := sr_urls_tried result @ [(url, ''no_content'')]\<rparr>, st')
                      urls)
         else try_urls env
                (result\<lparr>sr_urls_tried := sr_urls_tried result @ [(url, ''empty'')]\<rparr>, st') urls)"

definition scrape_capability_specific_urls ::
  "env \<Rightarrow> agent_state \<Rightarrow> string \<Rightarrow> string \<Rightarrow> string list \<Rightarrow> string option
     \<Rightarrow> scrape_result \<times> agent_state" where
  "scrape_capability_specific_urls env st competitor_name competitor_base_url probable_urls
       feature_name =
     (let result0 = \<lparr>sr_competitor_name = competitor_name, sr_feature_name = feature_name,
                      sr_urls_tried = [], sr_urls_successful = [], sr_content_extracted = [],
                      sr_headings = [], sr_terminology_found = []\<rparr>;
          (result, st1) = try_urls env (result0, st) (take 5 probable_urls)
      in if sr_urls_successful result = [] then
           (let (html, st2) = fetch_page env st1 competitor_base_url
            in if html \<noteq> [] then
                 (let content_data = extract_content env html competitor_base_url
                  in if pg_content content_data \<noteq> [] then
                       (result\<lparr>sr_urls_successful :=
                                 sr_urls_successful result @ [competitor_base_url],
                               sr_content_extracted := take 5000 (pg_content content_data),
                               sr_headings := pg_headings content_data\<rparr>, st2)
                     else (result, st2))
               else (result, st2))
         else (result, st1))"

section \<open>Competitor URL resolver and scraper, per competitor\<close>

text \<open>
  The part of the loop body of \<open>get_competitor_content_for_capability\<close> inside the inner
  \<open>try\<close>: the oracle's guess, the merged candidates and their scraping. The result is the
  competitor's entry when the scraper extracted content; \<open>None\<close> stands for every way of
  reaching the code after the inner \<open>try\<close> (an exception caught by its \<open>except\<close>, among them
  the \<open>TypeError\<close> of \<open>None + list\<close> for \<open>probable_urls: null\<close>, an empty guess, or no
  content).
\<close>

definition capability_pages ::
  "env \<Rightarrow> agent_state \<Rightarrow> capability \<Rightarrow> string option \<Rightarrow> string \<times> string \<Rightarrow> string
     \<Rightarrow> string list \<Rightarrow> competitor_content option \<times> agent_state" where
  "capability_pages env st capability capability_name competitor fallback_content
       discovered_help_urls =
     (case find_competitor_capability_urls env capability (fst competitor) (snd competitor)
             (take 1500 fallback_content) of
        Inl e \<Rightarrow> (None, st)
      | Inr None \<Rightarrow> (None, st)
      | Inr (Some competitor_capability) \<Rightarrow>
          if \<not> competitor_capability_nonempty competitor_capability then (None, st)
          else
            (let likely_feature_name =
                   (case cc_likely_feature_name competitor_capability of
                      Missing \<Rightarrow> capability_name | Null \<Rightarrow> None | Val n \<Rightarrow> Some n);
                 terminology_hints =
                   (case get_default (cc_terminology_hints competitor_capability) [] of
                      None \<Rightarrow> [] | Some hs \<Rightarrow> hs)
             in case get_default (cc_probable_urls competitor_capability) [] of
                  None \<Rightarrow> (None, st)
                | Some llm_urls \<Rightarrow>
                    (let unique_urls = merge_urls llm_urls discovered_help_urls;
                         (scrape, st') =
                           scrape_capability_specific_urls env st (fst competitor) (snd competitor)
                             unique_urls likely_feature_name
                     in if sr_content_extracted scrape \<noteq> [] then
                          (Some \<lparr>co_competitor_name = fst competitor,
                                  co_competitor_url = snd competitor,
                                  co_capability_name = capability_name,
                                  co_competitor_feature_name = likely_feature_name,
                                  co_urls_scraped = sr_urls_successful scrape,
                                  co_content = take 8000 (sr_content_extracted scrape),
                                  co_headings = take 30 (sr_headings scrape),
                                  co_terminology_hints = terminology_hints,
                                  co_pages_scraped = length (sr_urls_successful scrape)\<rparr>, st')
                        else (None, st'))))"

text \<open>The fallback of the loop body: the homepage content fetched in step 1.\<close>

definition homepage_fallback ::
  "string option \<Rightarrow> string \<times> string \<Rightarrow> string \<Rightarrow> string list \<Rightarrow> competitor_content option" where
  "homepage_fallback capability_name competitor fallback_content fallback_headings =
     (if fallback_content \<noteq> [] \<and> length fallback_content > 200 then
        Some \<lparr>co_competitor_name = fst competitor, co_competitor_url = snd competitor,
              co_capability_name = capability_name,
              co_competitor_feature_name = capability_name,
              co_urls_scraped = [snd competitor],
              co_content = take 6000 fallback_content,
              co_headings = take 20 fallback_headings,
              co_terminology_hints = [],
              co_pages_scraped = 1\<rparr>
      else None)"

text \<open>
  The loop body for one competitor: the entry appended to \<open>competitor_content\<close>, if any.
  A \<open>terminology_hints: null\<close> is stored as it is by the source and as the empty list here.
\<close>

definition scrape_competitor ::
  "env \<Rightarrow> agent_state \<Rightarrow> capability \<Rightarrow> string option \<Rightarrow> string \<times> string
     \<Rightarrow> competitor_content option \<times> agent_state" where
  "scrape_competitor env st capability capability_name competitor =
     (let (main_html, st1) = fetch_page env st (snd competitor);
          main_content = extract_content env main_html (snd competitor);
          fallback_content = pg_content main_content;
          fallback_headings = pg_headings main_content;
          discovered_help_urls =
            (if main_html \<noteq> [] then discover_help_urls (find_all_a env) (snd competitor) main_html
             else []);
          (found, st2) =
            capability_pages env st1 capability capability_name competitor fallback_content
              discovered_help_urls
      in case found of
           Some entry \<Rightarrow> (Some entry, st2)
         | None \<Rightarrow>
             (homepage_fallback capability_name competitor fallback_content fallback_headings, st2))"

fun scrape_competitors ::
  "env \<Rightarrow> capability \<Rightarrow> string option \<Rightarrow> competitor_content list \<times> agent_state
     \<Rightarrow> (string \<times> string) list \<Rightarrow> competitor_content list \<times> agent_state" where
  "scrape_competitors env capability capability_name (competitor_content, st) [] =
     (competitor_content, st)"
| "scrape_competitors env capability capability_name (competitor_content, st) (competitor # rest) =
     (let (entry, st') = scrape_competitor env st capability capability_name competitor
      in scrape_competitors env capability capability_name
           (case entry of Some e \<Rightarrow> competitor_content @ [e] | None \<Rightarrow> competitor_content, st')
           rest)"

text \<open>The second pass, made when the first found nothing: the homepages only.\<close>

fun scrape_main_pages ::
  "env \<Rightarrow> string option \<Rightarrow> competitor_content list \<times> agent_state \<Rightarrow> (string \<times> string) list
     \<Rightarrow> competitor_content list \<times> agent_state" where
  "scrape_main_pages env capability_name (competitor_content, st) [] = (competitor_content, st)"
| "scrape_main_pages env capability_name (competitor_content, st) (competitor # rest) =
     (let (html, st') = fetch_page env st (snd competitor);
          content_data = extract_content env html (snd competitor)
      in scrape_main_pages env capability_name
           (case (if html \<noteq> [] then
                    homepage_fallback capability_name competitor (pg_content content_data)
                      (pg_headings content_data)
                  else None) of
              Some e \<Rightarrow> competitor_content @ [e]
            | None \<Rightarrow> competitor_content, st')
           rest)"

definition get_competitors :: "string \<Rightarrow> error + (string \<times> string) list" where
  "get_competitors product =
     (case PRODUCT_COMPETITORS product of
        None \<Rightarrow> Inl (ValueError (''Unknown product type: '' @ product))
      | Some competitors \<Rightarrow> Inr competitors)"

record capability_content =
  gc_product :: string
  gc_capability :: capability
  gc_competitors_scraped :: nat
  gc_competitor_content :: "competitor_content list"

definition get_competitor_content_for_capability ::
  "env \<Rightarrow> agent_state \<Rightarrow> string \<Rightarrow> capability \<Rightarrow> (error + capability_content) \<times> agent_state" where
  "get_competitor_content_for_capability env st product capability =
     (case get_competitors product of
        Inl e \<Rightarrow> (Inl e, st)
      | Inr competitors \<Rightarrow>
          (let capability_name = get_default (cap_name capability) ''Unknown'';
               (found, st1) = scrape_competitors env capability capability_name ([], st) competitors;
               (competitor_content, st2) =
                 (if found = [] then scrape_main_pages env capability_name ([], st1) competitors
                  else (found, st1))
           in if competitor_content = [] then
                (Inl (Exception
                   (''Failed to scrape any competitor content for capability '' @ [CHR 0x27]
                      @ (case capability_name of Some n \<Rightarrow> n | None \<Rightarrow> ''None'')
                      @ [CHR 0x27])), st2)
              else
                (Inr \<lparr>gc_product = product, gc_capability = capability,
                       gc_competitors_scraped = length competitor_content,
                       gc_competitor_content = competitor_content\<rparr>, st2)))"

section \<open>Pipeline orchestrator\<close>

record analysis =
  an_product :: string
  an_capability :: capability
  an_competitors :: "string list"
  an_competitors_scraped :: nat
  an_keyword_data :: keyword_data
  an_time_range :: string

definition analyze_competitor_keywords ::
  "env \<Rightarrow> agent_state \<Rightarrow> article_keyword list \<Rightarrow> string \<Rightarrow> string \<Rightarrow> string \<Rightarrow> string
     \<Rightarrow> string list \<Rightarrow> string \<Rightarrow> (error + analysis) \<times> agent_state" where
  "analyze_competitor_keywords env st article_keywords product time_range article_title
       article_content article_headings article_url =
     (case get_competitors product of
        Inl e \<Rightarrow> (Inl e, st)
      | Inr competitors \<Rightarrow>
     (case identify_article_capability env article_title article_headings article_content
             article_url of
        Inl e \<Rightarrow> (Inl e, st)
      | Inr capability \<Rightarrow>
     (case get_competitor_content_for_capability env st product capability of
        (Inl e, st') \<Rightarrow> (Inl e, st')
      | (Inr competitor_content_data, st') \<Rightarrow>
     (case get_competitor_keywords env article_keywords product time_range article_title
             article_content (gc_competitor_content competitor_content_data) of
        Inl e \<Rightarrow> (Inl e, st')
      | Inr keyword_data \<Rightarrow>
          (Inr \<lparr>an_product = product, an_capability = capability,
                 an_competitors = map fst competitors,
                 an_competitors_scraped =
                   length (gc_competitor_content competitor_content_data),
                 an_keyword_data = keyword_data, an_time_range = time_range\<rparr>, st')))))"

subsection \<open>The article scraper\<close>

text \<open>
  \<open>WebScraper.fetch_page\<close>: \<open>article_response\<close> is the outcome of the request, an exception
  as the \<open>except\<close> clauses of \<open>fetch_page\<close> re-raise it or the body. The check of the body's
  length raises inside the \<open>try\<close>, so its exception is re-raised by the last clause.
\<close>

definition article_fetch_page :: "env \<Rightarrow> agent_state \<Rightarrow> string \<Rightarrow> (error + string) \<times> agent_state" where
  "article_fetch_page env st url =
     (let st' = st\<lparr>fetched := fetched st @ [url]\<rparr>
      in (case article_response env url of
            Inl e \<Rightarrow> Inl e
          | Inr html \<Rightarrow>
              if html = [] \<or> length html < 100 then
                Inl (Exception (''Failed to fetch URL '' @ url
                       @ '': Empty or invalid HTML response from URL: '' @ url))
              else Inr html, st'))"

record scraped_article =
  sa_title :: string
  sa_headings :: "string list"
  sa_content :: string

text \<open>\<open>WebScraper.scrape_url\<close> followed by the checks of \<open>KeywordExtractionAgent.scrape_url\<close>.\<close>

definition scrape_url :: "env \<Rightarrow> agent_state \<Rightarrow> string \<Rightarrow> (error + scraped_article) \<times> agent_state" where
  "scrape_url env st url =
     (case article_fetch_page env st url of
        (Inl e, st') \<Rightarrow> (Inl e, st')
      | (Inr html, st') \<Rightarrow>
          (let title = (if art_title env html \<noteq> [] then art_title env html else art_h1 env html);
               headings = filter (\<lambda>t. t \<noteq> [] \<and> length t > 3) (art_headings env html);
               content = art_content env html
           in if title = [] then (Inl (Exception (''No title found in URL: '' @ url)), st')
              else if content = [] \<or> length content < 100 then
                (Inl (Exception (''No meaningful content found in URL: '' @ url)), st')
              else (Inr \<lparr>sa_title = title, sa_headings = headings, sa_content = content\<rparr>, st')))"

record seo_result =
  res_url :: string
  res_title :: string
  res_product :: string
  res_time_range :: string
  res_capability :: capability
  res_competitors :: "string list"
  res_keyword_data :: keyword_data
  res_original_content :: string

definition full_seo_analysis ::
  "env \<Rightarrow> agent_state \<Rightarrow> string \<Rightarrow> string \<Rightarrow> string \<Rightarrow> (error + seo_result) \<times> agent_state" where
  "full_seo_analysis env st url product time_range =
     (case get_competitors product of
        Inl e \<Rightarrow> (Inl e, st)
      | Inr competitors \<Rightarrow>
     (case scrape_url env st url of
        (Inl e, st1) \<Rightarrow> (Inl e, st1)
      | (Inr scraped, st1) \<Rightarrow>
     (case extract_article_keywords env (sa_title scraped) (sa_headings scraped)
             (sa_content scraped) url time_range of
        Inl e \<Rightarrow> (Inl e, st1)
      | Inr article_keywords \<Rightarrow>
     (case analyze_competitor_keywords env st1 article_keywords product time_range
             (sa_title scraped) (sa_content scraped) (sa_headings scraped) url of
        (Inl e, st2) \<Rightarrow> (Inl e, st2)
      | (Inr analysis_result, st2) \<Rightarrow>
          (Inr \<lparr>res_url = url, res_title = sa_title scraped, res_product = product,
                 res_time_range = time_range, res_capability = an_capability analysis_result,
                 res_competitors = map fst competitors,
                 res_keyword_data = an_keyword_data analysis_result,
                 res_original_content = sa_content scraped\<rparr>, st2)))))"

subsection \<open>The request handler\<close>

text \<open>
  \<open>re.match\<close> of the pattern \<open>^BASE(/.*)?$\<close>: the URL is the base, or the base followed by a
  slash and characters other than the line feed; a single trailing line feed is allowed
  by \<open>$\<close>.
\<close>

definition url_matches :: "string \<Rightarrow> string \<Rightarrow> bool" where
  "url_matches base url =
     (let u = (if url \<noteq> [] \<and> last url = CHR 0x0A then butlast url else url)
      in u = base \<or> (prefix (base @ ''/'') u \<and> CHR 0x0A \<notin> set (drop (length base + 1) u)))"

definition URL_PATTERNS :: "string \<Rightarrow> string option" where
  "URL_PATTERNS product =
     (if product = ''Forms'' then
        Some ''https://experienceleague.adobe.com/en/docs/experience-manager-cloud-service/content/forms''
      else if product = ''Assets'' then
        Some ''https://experienceleague.adobe.com/en/docs/experience-manager-cloud-service/content/assets''
      else if product = ''Sites'' then
        Some ''https://experienceleague.adobe.com/en/docs/experience-manager-cloud-service/content/sites''
      else None)"

definition validate_url_for_product :: "string \<Rightarrow> string \<Rightarrow> bool \<times> string" where
  "validate_url_for_product url product =
     (case URL_PATTERNS product of
        None \<Rightarrow> (False, ''Invalid URL'')
      | Some base \<Rightarrow> if url_matches base url then (True, []) else (False, ''Invalid URL''))"

text \<open>\<open>str(e)\<close>: the message of an exception; for the library's exceptions it is \<open>library_message\<close>.\<close>

definition str_error :: "env \<Rightarrow> error \<Rightarrow> string" where
  "str_error env e =
     (case e of Exception m \<Rightarrow> m | ValueError m \<Rightarrow> m | HTTPException c m \<Rightarrow> m
      | _ \<Rightarrow> library_message env e)"

text \<open>
  \<open>analyze_url\<close>, the handler of \<open>POST /api/analyze\<close>: the three validations, then the
  pipeline, whose exceptions become the status 500.
\<close>

definition analyze_url ::
  "env \<Rightarrow> agent_state \<Rightarrow> string \<Rightarrow> string \<Rightarrow> string \<Rightarrow> (error + seo_result) \<times> agent_state" where
  "analyze_url env st url product time_range =
     (if PRODUCT_COMPETITORS product = None then
        (Inl (HTTPException 400 ''Invalid product. Options: ['Assets', 'Forms', 'Sites']''), st)
      else if time_range \<notin> set [''week'', ''month'', ''year''] then
        (Inl (HTTPException 400 ''time_range must be: week, month, or year''), st)
      else if \<not> fst (validate_url_for_product url product) then
        (Inl (HTTPException 400 (snd (validate_url_for_product url product))), st)
      else
        (case full_seo_analysis env st url product time_range of
           (Inl e, st') \<Rightarrow> (Inl (HTTPException 500 (take 500 (str_error env e))), st')
         | (Inr result, st') \<Rightarrow> (Inr result, st')))"

text \<open>
  A term is covered by the aggregated keywords when one of them has the same text (lower
  case, trimmed) and lists the term's competitor in \<open>used_by\<close>.
\<close>

definition covers :: "competitor_keyword list \<Rightarrow> competitor_term \<Rightarrow> bool" where
  "covers kws t = list_ex (\<lambda>e. strip (lower (ck_keyword e)) = strip (lower (ct_keyword t))
       \<and> ct_competitor t \<in> set (ck_used_by e)) kws"

text \<open>Example inputs: an oracle that answers every mapping prompt with the same keyword object.\<close>

definition ex_keyword_monthly :: oracle_keyword where
  "ex_keyword_monthly =
     \<lparr>ok_keyword = Val ''Spam Protection'', ok_weekly_volume = Missing,
      ok_monthly_volume = Val 1200, ok_yearly_volume = Missing, ok_cpc = Missing,
      ok_difficulty = Missing, ok_relevance_score = Missing, ok_found_in = Missing\<rparr>"

definition ex_keyword_bare :: oracle_keyword where
  "ex_keyword_bare =
     \<lparr>ok_keyword = Val ''Spam Protection'', ok_weekly_volume = Missing,
      ok_monthly_volume = Missing, ok_yearly_volume = Missing, ok_cpc = Missing,
      ok_difficulty = Missing, ok_relevance_score = Missing, ok_found_in = Missing\<rparr>"

definition ex_env :: "oracle_keyword \<Rightarrow> env" where
  "ex_env k =
     \<lparr>chat_completion = (\<lambda>p. Inr ''{}''),
      loads_capability = (\<lambda>s. None),
      loads_competitor_capability = (\<lambda>s. None),
      loads_keywords = (\<lambda>s. None),
      loads_mapping = (\<lambda>s. Some (Val k)),
      http_get = (\<lambda>n u. None),
      soup_title = (\<lambda>h. []),
      soup_headings = (\<lambda>h. []),
      soup_content = (\<lambda>h. []),
      find_all_a = (\<lambda>h. []),
      article_response = (\<lambda>u. Inl (Exception ''Timeout'')),
      art_title = (\<lambda>h. []),
      art_h1 = (\<lambda>h. []),
      art_headings = (\<lambda>h. []),
      art_content = (\<lambda>h. []),
      library_message = (\<lambda>e. [])\<rparr>"

definition ex_content :: "string \<Rightarrow> competitor_content" where
  "ex_content name =
     \<lparr>co_competitor_name = name, co_competitor_url = ''https://www.typeform.com/'',
      co_capability_name = Some ''Spam Protection'',
      co_competitor_feature_name = Some ''Spam Protection'',
      co_urls_scraped = [''https://www.typeform.com/''], co_content = ''spam protection for forms'',
      co_headings = [], co_terminology_hints = [], co_pages_scraped = 1\<rparr>"

definition ex_article_keyword :: "string \<Rightarrow> int option \<Rightarrow> article_keyword" where
  "ex_article_keyword k v =
     \<lparr>ak_keyword = Val k, ak_search_volume = v, ak_cpc = Some (5 / 2),
      ak_difficulty = Some ''high'', ak_tool = ''Azure OpenAI + Web Scraping'',
      ak_source = ''Article Content Analysis'', ak_semrush_url = generate_semrush_url k\<rparr>"

definition ex_mapping_run :: "error + keyword_data" where
  "ex_mapping_run =
     get_competitor_keywords (ex_env ex_keyword_monthly)
       [ex_article_keyword ''reCAPTCHA'' (Some 1200), ex_article_keyword ''form validation'' None]
       ''Forms'' ''week'' ''Title'' ''Body'' [ex_content ''Typeform'', ex_content ''Jotform'']"

text \<open>
  The specification's reading of the exclusion check: some excluded term occurs in the
  text as a substring, ignoring case.
\<close>

definition contains_excluded_term :: "string \<Rightarrow> bool" where
  "contains_excluded_term keyword_text =
     list_ex (\<lambda>t. is_substring t (lower keyword_text)) EXCLUDED_PRODUCT_TERMS"

text \<open>The value of the example run of \<open>get_competitor_keywords\<close>.\<close>

definition ex_mapping_result :: keyword_data where
  "ex_mapping_result =
     \<lparr>kd_article_keywords =
        [\<lparr>ac_keyword = ''reCAPTCHA'', ac_search_volume = Some 1200,
            ac_cpc = Some (5 / 2), ac_difficulty = Some ''high'',
            ac_tool = ''Azure OpenAI + Web Scraping'',
            ac_source = ''Article Content Analysis'',
            ac_semrush_url =
              ''https://www.semrush.com/analytics/keywordmagic/?q=reCAPTCHA&db=us''\<rparr>,
         \<lparr>ac_keyword = ''form validation'', ac_search_volume = None,
            ac_cpc = Some (5 / 2), ac_difficulty = Some ''high'',
            ac_tool = ''Azure OpenAI + Web Scraping'',
            ac_source = ''Article Content Analysis'',
            ac_semrush_url =
              ''https://www.semrush.com/analytics/keywordmagic/?q=form+validation&db=us''\<rparr>],
      kd_competitor_keywords =
        [\<lparr>ck_keyword = ''Spam Protection'', ck_search_volume = 1200,
            ck_cpc = 3 / 2, ck_difficulty = ''medium'',
            ck_tool = ''Competitor Website Scraping'',
            ck_source = ''Competitor Analysis'',
            ck_used_by = [''Typeform'', ''Jotform''],
            ck_semrush_url =
              ''https://www.semrush.com/analytics/keywordmagic/?q=Spam+Protection&db=us''\<rparr>],
      kd_suggested_keywords =
        [\<lparr>sk_keyword = ''reCAPTCHA'', sk_search_volume = Some 1200,
            sk_cpc = Some (5 / 2), sk_difficulty = Some ''high'',
            sk_tool = ''Azure OpenAI + Web Scraping'',
            sk_source = ''Highest Volume'', sk_used_by = [],
            sk_semrush_url =
              ''https://www.semrush.com/analytics/keywordmagic/?q=reCAPTCHA&db=us''\<rparr>,
         \<lparr>sk_keyword = ''Spam Protection'', sk_search_volume = Some 1200,
            sk_cpc = Some (3 / 2), sk_difficulty = Some ''medium'',
            sk_tool = ''Competitor Website Scraping'',
            sk_source = ''Highest Volume'',
            sk_used_by = [''Typeform'', ''Jotform''],
            sk_semrush_url =
              ''https://www.semrush.com/analytics/keywordmagic/?q=Spam+Protection&db=us''\<rparr>],
      kd_keyword_mappings =
        [\<lparr>km_article_keyword = ''reCAPTCHA'',
            km_article_search_volume = Some 1200,
            km_competitor_keywords =
              [\<lparr>ct_keyword = ''Spam Protection'',
                  ct_competitor = ''Typeform'', ct_search_volume = 1200,
                  ct_cpc = 3 / 2, ct_difficulty = ''medium'',
                  ct_relevance_score = 7, ct_found_in = Some ''content''\<rparr>,
               \<lparr>ct_keyword = ''Spam Protection'',
                  ct_competitor = ''Jotform'', ct_search_volume = 1200,
                  ct_cpc = 3 / 2, ct_difficulty = ''medium'',
                  ct_relevance_score = 7, ct_found_in = Some ''content''\<rparr>]\<rparr>,
         \<lparr>km_article_keyword = ''form validation'',
            km_article_search_volume = None,
            km_competitor_keywords =
              [\<lparr>ct_keyword = ''Spam Protection'',
                  ct_competitor = ''Typeform'', ct_search_volume = 1200,
                  ct_cpc = 3 / 2, ct_difficulty = ''medium'',
                  ct_relevance_score = 7, ct_found_in = Some ''content''\<rparr>,
               \<lparr>ct_keyword = ''Spam Protection'',
                  ct_competitor = ''Jotform'', ct_search_volume = 1200,
                  ct_cpc = 3 / 2, ct_difficulty = ''medium'',
                  ct_relevance_score = 7, ct_found_in = Some ''content''\<rparr>]\<rparr>]\<rparr>"

text \<open>
  An oracle whose keyword extraction answers with one excluded and one admissible
  keyword.
\<close>

definition ex_extract_env :: env where
  "ex_extract_env =
     (ex_env ex_keyword_bare)
       \<lparr>loads_keywords :=
          (\<lambda>s. Some (Val
             [\<lparr>ok_keyword = Val ''AEM Forms'', ok_weekly_volume = Missing,
                ok_monthly_volume = Val 900, ok_yearly_volume = Missing, ok_cpc = Val 2,
                ok_difficulty = Val ''low'', ok_relevance_score = Missing,
                ok_found_in = Missing\<rparr>,
              \<lparr>ok_keyword = Val ''form validation'', ok_weekly_volume = Missing,
                ok_monthly_volume = Val 700, ok_yearly_volume = Missing, ok_cpc = Val 1,
                ok_difficulty = Val ''low'', ok_relevance_score = Missing,
                ok_found_in = Missing\<rparr>]))\<rparr>"

definition ex_extract_run :: "error + article_keyword list" where
  "ex_extract_run =
     extract_article_keywords ex_extract_env ''Title'' [] ''Body'' ''https://example.com/'' ''month''"

definition ex_extracted :: article_keyword where
  "ex_extracted =
     \<lparr>ak_keyword = Val ''form validation'', ak_search_volume = Some 700, ak_cpc = Some 1,
      ak_difficulty = Some ''low'', ak_tool = ''Azure OpenAI + Web Scraping'',
      ak_source = ''Article Content Analysis'',
      ak_semrush_url = ''https://www.semrush.com/analytics/keywordmagic/?q=form+validation&db=us''\<rparr>"

text \<open>
  The specification's reading of "deduplicate by a key keeping the first occurrence": the
  head stays, and the later entries with its key are removed from the rest.
\<close>

fun first_per_key :: "('a \<Rightarrow> 'k) \<Rightarrow> 'a list \<Rightarrow> 'a list" where
  "first_per_key key [] = []"
| "first_per_key key (x # xs) = x # first_per_key key (filter (\<lambda>y. key y \<noteq> key x) xs)"

text \<open>
  The parsed object names a capability: the key \<open>capability\<close> holds an object whose \<open>name\<close> is
  a non-empty string.
\<close>

definition names_capability :: "capability jfield \<Rightarrow> bool" where
  "names_capability data =
     (case data of
        Val c \<Rightarrow> (case cap_name c of Val n \<Rightarrow> n \<noteq> [] | _ \<Rightarrow> False)
      | _ \<Rightarrow> False)"

text \<open>Example inputs: a fresh agent, and oracles for capability identification.\<close>

definition ex_state :: agent_state where
  "ex_state = \<lparr>request_count = 0, fetched = []\<rparr>"

definition ex_empty_capability :: capability where
  "ex_empty_capability =
     \<lparr>cap_name = Missing, cap_description = Missing, cap_category = Missing,
      cap_competitor_search_terms = Missing, cap_common_url_paths = Missing\<rparr>"

definition ex_named_capability :: capability where
  "ex_named_capability = ex_empty_capability\<lparr>cap_name := Val ''Spam Protection''\<rparr>"

definition ex_capability_response :: string where
  "ex_capability_response = ''Here: {'' @ [CHR 0x22] @ ''capability'' @ [CHR 0x22] @ '': {}} done''"

definition ex_capability_json :: string where
  "ex_capability_json = ''{'' @ [CHR 0x22] @ ''capability'' @ [CHR 0x22] @ '': {}}''"

definition ex_capability_env :: "string \<Rightarrow> capability \<Rightarrow> env" where
  "ex_capability_env response c =
     (ex_env ex_keyword_bare)
       \<lparr>chat_completion := (\<lambda>p. Inr response),
        loads_capability := (\<lambda>s. if s = ex_capability_json then Some (Val c) else None)\<rparr>"

section \<open>Verified properties\<close>

subsection \<open>URL merging and discovery\<close>

lemma removeAll_filter_commute: "removeAll x (filter P xs) = filter P (removeAll x xs)"
  by (induction xs) auto

lemma keep_first_filter: "keep_first (filter P xs) = filter P (keep_first xs)"
proof (induction xs rule: keep_first.induct)
  case 1
  then show ?case by simp
next
  case (2 x xs)
  show ?case
  proof (cases "P x")
    case True
    then show ?thesis using 2 by (simp add: removeAll_filter_commute)
  next
    case False
    have "keep_first (filter P xs) = keep_first (removeAll x (filter P xs))"
      using False by (simp add: removeAll_id)
    also have "\<dots> = filter P (keep_first (removeAll x xs))"
      using 2 by (simp add: removeAll_filter_commute)
    finally show ?thesis using False by simp
  qed
qed

lemma set_keep_first: "set (keep_first xs) = set xs"
  by (induction xs rule: keep_first.induct) auto

lemma distinct_keep_first: "distinct (keep_first xs)"
  by (induction xs rule: keep_first.induct) (auto simp: set_keep_first)

lemma unique_loop_keep_first:
  "unique_loop seen acc xs = acc @ keep_first (filter (\<lambda>u. u \<notin> seen) xs)"
proof (induction xs arbitrary: seen acc)
  case Nil
  then show ?case by simp
next
  case (Cons x xs)
  have "removeAll x (filter (\<lambda>u. u \<notin> seen) xs) = filter (\<lambda>u. u \<notin> insert x seen) xs"
    by (induction xs) auto
  with Cons show ?case by simp
qed

lemma keep_first_append:
  "keep_first (xs @ ys) = keep_first xs @ keep_first (filter (\<lambda>u. u \<notin> set xs) ys)"
proof (induction xs arbitrary: ys rule: keep_first.induct)
  case 1
  then show ?case by simp
next
  case (2 x xs)
  have f: "filter (\<lambda>u. u \<notin> set (removeAll x xs)) (removeAll x ys)
        = filter (\<lambda>u. u \<notin> set (x # xs)) ys"
    by (induction ys) auto
  have "keep_first ((x # xs) @ ys) = x # keep_first (removeAll x xs @ removeAll x ys)"
    by simp
  also have "\<dots> = x # keep_first (removeAll x xs)
                   @ keep_first (filter (\<lambda>u. u \<notin> set (removeAll x xs)) (removeAll x ys))"
    using 2[of "removeAll x ys"] by simp
  finally show ?case unfolding f by simp
qed

text \<open>
  Claim C4. The merged candidate list is the oracle's URLs followed by the discovered ones
  with duplicates (exact string equality) removed and the first occurrence kept: it is
  the oracle's URLs without repetition, followed by the discovered URLs that are not
  among the oracle's, without repetition; nothing is lost and nothing is repeated.
\<close>

theorem merge_urls_oracle_first:
  "merge_urls llm_urls discovered = keep_first (llm_urls @ discovered)
   \<and> merge_urls llm_urls discovered =
       keep_first llm_urls @ keep_first (filter (\<lambda>u. u \<notin> set llm_urls) discovered)
   \<and> distinct (merge_urls llm_urls discovered)
   \<and> set (merge_urls llm_urls discovered) = set llm_urls \<union> set discovered"
proof -
  have m: "merge_urls llm_urls discovered = keep_first (llm_urls @ discovered)"
    by (simp add: merge_urls_def unique_loop_keep_first)
  show ?thesis
    unfolding m by (simp add: keep_first_append[symmetric] distinct_keep_first set_keep_first)
qed

lemma add_common_paths_map:
  "distinct ps \<Longrightarrow> (\<forall>p\<in>set ps. b @ p \<notin> set acc) \<Longrightarrow>
   add_common_paths b acc ps = acc @ map (\<lambda>p. b @ p) ps"
proof (induction ps arbitrary: acc)
  case Nil
  then show ?case by simp
next
  case (Cons a ps)
  have fresh: "\<forall>p\<in>set ps. b @ p \<notin> set (acc @ [b @ a])"
    using Cons.prems by auto
  have "add_common_paths b (acc @ [b @ a]) ps = (acc @ [b @ a]) @ map (\<lambda>p. b @ p) ps"
    using Cons.IH[OF _ fresh] Cons.prems(1) by simp
  then show ?case using Cons.prems by (simp add: Let_def)
qed

lemma add_page_links_extends: "\<exists>ys. add_page_links d acc links = acc @ ys"
proof (induction links arbitrary: acc)
  case Nil
  then show ?case by simp
next
  case (Cons l links)
  obtain href t where l: "l = (href, t)" by (cases l)
  have a: "\<exists>ys. add_page_links d acc links = acc @ ys" by (rule Cons)
  have b: "\<exists>ys. add_page_links d (acc @ [x]) links = acc @ ys" for x
    using Cons[of "acc @ [x]"] by auto
  show ?case using a b
    by (simp add: l Let_def)
qed

lemma distinct_common: "distinct get_common_paths"
  by (simp add: get_common_paths_def)

lemma length_common: "length get_common_paths = 20"
  by (simp add: get_common_paths_def)

text \<open>
  Claim C10. Whatever the base URL, the homepage markup and its anchors are,
  \<open>discover_help_urls\<close> returns exactly ten URLs: the base URL (without trailing
  slashes) joined with the first ten generic paths. The anchors of the homepage have no
  influence on the result.
\<close>

theorem discover_help_urls_generic_only:
  "discover_help_urls anchors base_url main_page_html =
     map (\<lambda>p. rstrip_slash base_url @ p) (take 10 get_common_paths)
   \<and> length (discover_help_urls anchors base_url main_page_html) = 10"
proof -
  let ?b = "rstrip_slash base_url"
  have s1: "add_common_paths ?b [] get_common_paths = map (\<lambda>p. ?b @ p) get_common_paths"
    using add_common_paths_map[OF distinct_common, of ?b "[]"] by simp
  obtain ys where s2: "add_page_links (base_domain_of ?b) (map (\<lambda>p. ?b @ p) get_common_paths)
       (anchors main_page_html) = map (\<lambda>p. ?b @ p) get_common_paths @ ys"
    using add_page_links_extends by blast
  have "discover_help_urls anchors base_url main_page_html = take 10 (map (\<lambda>p. ?b @ p) get_common_paths)"
    by (simp add: discover_help_urls_def Let_def s1 s2 length_common)
  then show ?thesis by (simp add: take_map length_common)
qed

subsection \<open>Keyword mapping: aggregation and defaults\<close>

lemma find_existing_None:
  "find_existing kws k = None \<longleftrightarrow>
     (\<forall>e\<in>set kws. strip (lower (ck_keyword e)) \<noteq> strip (lower k))"
  by (induction kws) auto

lemma find_existing_Some:
  "find_existing kws k = Some i \<Longrightarrow>
     i < length kws \<and> strip (lower (ck_keyword (kws ! i))) = strip (lower k)"
proof (induction kws arbitrary: i)
  case Nil
  then show ?case by simp
next
  case (Cons e kws)
  then show ?case by (auto split: if_splits)
qed

lemma map_keyword_add_term:
  "map ck_keyword (add_term kws t) =
     (if find_existing kws (ct_keyword t) = None then map ck_keyword kws @ [ct_keyword t]
      else map ck_keyword kws)"
proof (cases "find_existing kws (ct_keyword t)")
  case None
  then show ?thesis by (simp add: add_term_def)
next
  case (Some i)
  then have "i < length kws" using find_existing_Some by blast
  then show ?thesis using Some
    by (simp add: add_term_def Let_def map_update list_update_same_conv)
qed

lemma distinct_add_term:
  assumes "distinct (map (\<lambda>e. strip (lower (ck_keyword e))) kws)"
  shows "distinct (map (\<lambda>e. strip (lower (ck_keyword e))) (add_term kws t))"
proof -
  have eq: "map (\<lambda>e. strip (lower (ck_keyword e))) xs = map (\<lambda>k. strip (lower k)) (map ck_keyword xs)" for xs
    by simp
  have d: "distinct (map (\<lambda>k. strip (lower k)) (map ck_keyword kws))"
    using assms unfolding eq .
  show ?thesis
  proof (cases "find_existing kws (ct_keyword t)")
    case None
    then have "strip (lower (ct_keyword t)) \<notin> set (map (\<lambda>k. strip (lower k)) (map ck_keyword kws))"
      by (auto simp: find_existing_None)
    then have "distinct (map (\<lambda>k. strip (lower k)) (map ck_keyword kws @ [ct_keyword t]))"
      using d by simp
    then show ?thesis
      unfolding eq[of "add_term kws t"] map_keyword_add_term using None by simp
  next
    case (Some i)
    then show ?thesis using d
      unfolding eq[of "add_term kws t"] map_keyword_add_term by simp
  qed
qed

lemma distinct_foldl_add_term:
  "distinct (map (\<lambda>e. strip (lower (ck_keyword e))) kws) \<Longrightarrow>
   distinct (map (\<lambda>e. strip (lower (ck_keyword e))) (foldl add_term kws ts))"
  by (induction ts arbitrary: kws) (auto simp: distinct_add_term)

lemma covers_add_term_new: "covers (add_term kws t) t"
proof (cases "find_existing kws (ct_keyword t)")
  case None
  then show ?thesis by (simp add: add_term_def covers_def list_ex_iff)
next
  case (Some i)
  then have i: "i < length kws" "strip (lower (ck_keyword (kws ! i))) = strip (lower (ct_keyword t))"
    using find_existing_Some by blast+
  show ?thesis
  proof (cases "ct_competitor t \<in> set (ck_used_by (kws ! i))")
    case True
    then show ?thesis using Some i
      by (auto simp: add_term_def covers_def list_ex_iff Let_def intro!: bexI[of _ "kws ! i"])
  next
    case False
    let ?e = "(kws ! i)\<lparr>ck_used_by := ck_used_by (kws ! i) @ [ct_competitor t]\<rparr>"
    have "?e \<in> set (kws[i := ?e])" using i by (simp add: set_update_memI)
    then show ?thesis using Some i False
      by (auto simp: add_term_def covers_def list_ex_iff Let_def intro!: bexI[of _ ?e])
  qed
qed

lemma covers_add_term_old: "covers kws u \<Longrightarrow> covers (add_term kws t) u"
proof (cases "find_existing kws (ct_keyword t)")
  case None
  assume "covers kws u"
  then show ?thesis using None by (auto simp: add_term_def covers_def list_ex_iff)
next
  case (Some i)
  assume c: "covers kws u"
  then obtain e where e: "e \<in> set kws" "strip (lower (ck_keyword e)) = strip (lower (ct_keyword u))"
     "ct_competitor u \<in> set (ck_used_by e)"
    by (auto simp: covers_def list_ex_iff)
  then obtain j where j: "j < length kws" "kws ! j = e" by (auto simp: in_set_conv_nth)
  have i: "i < length kws" using Some find_existing_Some by blast
  show ?thesis
  proof (cases "ct_competitor t \<in> set (ck_used_by (kws ! i))")
    case True
    then show ?thesis using Some c by (simp add: add_term_def Let_def)
  next
    case False
    let ?e' = "(kws ! i)\<lparr>ck_used_by := ck_used_by (kws ! i) @ [ct_competitor t]\<rparr>"
    let ?kws' = "kws[i := ?e']"
    have len: "j < length ?kws'" using j by simp
    have "strip (lower (ck_keyword (?kws' ! j))) = strip (lower (ct_keyword u))
          \<and> ct_competitor u \<in> set (ck_used_by (?kws' ! j))"
      using e j i by (cases "i = j") (auto simp: nth_list_update)
    moreover have "?kws' ! j \<in> set ?kws'" using len by (rule nth_mem)
    ultimately have "covers ?kws' u" unfolding covers_def list_ex_iff by blast
    then show ?thesis using Some False by (simp add: add_term_def Let_def)
  qed
qed

lemma covers_foldl_old: "covers kws u \<Longrightarrow> covers (foldl add_term kws ts) u"
  by (induction ts arbitrary: kws) (auto simp: covers_add_term_old)

lemma covers_foldl_new: "u \<in> set ts \<Longrightarrow> covers (foldl add_term kws ts) u"
proof (induction ts arbitrary: kws)
  case Nil
  then show ?case by simp
next
  case (Cons t ts)
  then show ?case
    by (auto simp: covers_add_term_new covers_foldl_old)
qed

lemma map_keywords_invariant:
  assumes "map_keywords env aks ti co tr vf cc st kws = Inr st'"
    and "I st"
    and "\<And>ms kall akw vol ts. I (ms, kall) \<Longrightarrow> ts \<noteq> [] \<Longrightarrow>
           (\<forall>t\<in>set ts. \<exists>c. competitor_term_for env akw ti co tr vf c = Some t) \<Longrightarrow>
           I (ms @ [\<lparr>km_article_keyword = akw, km_article_search_volume = vol,
                     km_competitor_keywords = ts\<rparr>], foldl add_term kall ts)"
  shows "I st'"
  using assms(1,2)
proof (induction kws arbitrary: st)
  case Nil
  then show ?case by simp
next
  case (Cons akw kws)
  obtain ms kall where st: "st = (ms, kall)" by (cases st)
  from Cons.prems(1) obtain d where d: "find_article_kw_data aks akw = Inr d"
    by (auto simp: st split: sum.splits)
  let ?raw = "List.map_filter (competitor_term_for env akw ti co tr vf) cc"
  let ?ts = "sort_desc ct_search_volume ?raw"
  have mem: "\<forall>t\<in>set ?ts. \<exists>c. competitor_term_for env akw ti co tr vf c = Some t"
    by (auto simp: sort_desc_def map_filter_def)
  show ?case
  proof (cases "?raw = []")
    case True
    then show ?thesis using Cons.prems Cons.IH[of st] d by (simp add: st)
  next
    case False
    have "length ?ts = length ?raw" by (simp add: sort_desc_def)
    with False have ne: "?ts \<noteq> []" by auto
    let ?st1 = "(ms @ [\<lparr>km_article_keyword = akw,
            km_article_search_volume = (case d of Some d \<Rightarrow> ak_search_volume d | None \<Rightarrow> Some 0),
            km_competitor_keywords = ?ts\<rparr>], foldl add_term kall ?ts)"
    have "I ?st1" using assms(3)[OF _ ne mem] Cons.prems(2) st by blast
    moreover have "map_keywords env aks ti co tr vf cc ?st1 kws = Inr st'"
      using Cons.prems(1) d False by (simp add: st Let_def)
    ultimately show ?thesis using Cons.IH by blast
  qed
qed

lemma find_existing_append:
  "find_existing kws k = None \<Longrightarrow>
   find_existing (kws @ ys) k = map_option (\<lambda>i. length kws + i) (find_existing ys k)"
proof (induction kws)
  case Nil
  then show ?case by (simp add: option.map_ident)
next
  case (Cons e kws)
  then show ?case
    by (auto split: if_splits simp: option.map_comp comp_def)
qed

lemma add_term_twice:
  assumes "find_existing kws (ct_keyword t1) = None"
    and "strip (lower (ct_keyword t2)) = strip (lower (ct_keyword t1))"
    and "ct_competitor t2 \<noteq> ct_competitor t1"
  shows "add_term (add_term kws t1) t2 =
           kws @ [\<lparr>ck_keyword = ct_keyword t1, ck_search_volume = ct_search_volume t1,
                   ck_cpc = ct_cpc t1, ck_difficulty = ct_difficulty t1,
                   ck_tool = ''Competitor Website Scraping'', ck_source = ''Competitor Analysis'',
                   ck_used_by = [ct_competitor t1, ct_competitor t2],
                   ck_semrush_url = generate_semrush_url (ct_keyword t1)\<rparr>]"
proof -
  let ?e = "\<lparr>ck_keyword = ct_keyword t1, ck_search_volume = ct_search_volume t1,
                   ck_cpc = ct_cpc t1, ck_difficulty = ct_difficulty t1,
                   ck_tool = ''Competitor Website Scraping'', ck_source = ''Competitor Analysis'',
                   ck_used_by = [ct_competitor t1],
                   ck_semrush_url = generate_semrush_url (ct_keyword t1)\<rparr>"
  have a1: "add_term kws t1 = kws @ [?e]"
    using assms(1) by (simp add: add_term_def)
  have none2: "find_existing kws (ct_keyword t2) = None"
    using assms(1,2) by (simp add: find_existing_None)
  have f: "find_existing (kws @ [?e]) (ct_keyword t2) = Some (length kws)"
    using find_existing_append[OF none2, of "[?e]"] assms(2) by simp
  show ?thesis
    unfolding a1 using f assms(3) by (simp add: add_term_def Let_def)
qed

text \<open>
  Claim C2. If a term is not yet aggregated and two different competitors report it (same
  text up to case and surrounding white space), the aggregation holds exactly one new
  entry for it, whose \<open>used_by\<close> lists both competitors. In every result of
  \<open>get_competitor_keywords\<close> the texts of \<open>competitor_keywords\<close> are pairwise different
  (lower case, trimmed), and every competitor term of every keyword mapping is represented
  by an aggregated entry of the same text that lists the term's competitor: duplicates
  are merged into \<open>used_by\<close>, not dropped.
\<close>

theorem competitor_terms_merged:
  "(find_existing kws (ct_keyword t1) = None
      \<and> strip (lower (ct_keyword t2)) = strip (lower (ct_keyword t1))
      \<and> ct_competitor t2 \<noteq> ct_competitor t1 \<longrightarrow>
    add_term (add_term kws t1) t2 =
      kws @ [\<lparr>ck_keyword = ct_keyword t1, ck_search_volume = ct_search_volume t1,
              ck_cpc = ct_cpc t1, ck_difficulty = ct_difficulty t1,
              ck_tool = ''Competitor Website Scraping'', ck_source = ''Competitor Analysis'',
              ck_used_by = [ct_competitor t1, ct_competitor t2],
              ck_semrush_url = generate_semrush_url (ct_keyword t1)\<rparr>])
   \<and> (get_competitor_keywords env article_keywords product time_range article_title
         article_content competitor_content = Inr r \<longrightarrow>
       distinct (map (\<lambda>e. strip (lower (ck_keyword e))) (kd_competitor_keywords r))
       \<and> (\<forall>m\<in>set (kd_keyword_mappings r). \<forall>t\<in>set (km_competitor_keywords m).
            \<exists>e\<in>set (kd_competitor_keywords r).
              strip (lower (ck_keyword e)) = strip (lower (ct_keyword t))
              \<and> ct_competitor t \<in> set (ck_used_by e)))"
proof (intro conjI impI)
  assume "find_existing kws (ct_keyword t1) = None
      \<and> strip (lower (ct_keyword t2)) = strip (lower (ct_keyword t1))
      \<and> ct_competitor t2 \<noteq> ct_competitor t1"
  then show "add_term (add_term kws t1) t2 =
      kws @ [\<lparr>ck_keyword = ct_keyword t1, ck_search_volume = ct_search_volume t1,
              ck_cpc = ct_cpc t1, ck_difficulty = ct_difficulty t1,
              ck_tool = ''Competitor Website Scraping'', ck_source = ''Competitor Analysis'',
              ck_used_by = [ct_competitor t1, ct_competitor t2],
              ck_semrush_url = generate_semrush_url (ct_keyword t1)\<rparr>]"
    using add_term_twice by blast
next
  assume run: "get_competitor_keywords env article_keywords product time_range article_title
         article_content competitor_content = Inr r"
  then obtain vf kwl where
    mk: "map_keywords env article_keywords article_title article_content time_range vf
           (take 2 competitor_content) ([], []) kwl
         = Inr (kd_keyword_mappings r, kd_competitor_keywords r)"
    by (auto simp: get_competitor_keywords_def Let_def split: option.splits sum.splits if_splits)
  let ?I1 = "\<lambda>st. distinct (map (\<lambda>e. strip (lower (ck_keyword e))) (snd st))"
  have "?I1 (kd_keyword_mappings r, kd_competitor_keywords r)"
    by (rule map_keywords_invariant[OF mk, where I = ?I1]) (simp_all add: distinct_foldl_add_term)
  then show "distinct (map (\<lambda>e. strip (lower (ck_keyword e))) (kd_competitor_keywords r))"
    by simp
  let ?I2 = "\<lambda>st :: keyword_mapping list \<times> competitor_keyword list. \<forall>m\<in>set (fst st). \<forall>t\<in>set (km_competitor_keywords m). covers (snd st) t"
  have "?I2 (kd_keyword_mappings r, kd_competitor_keywords r)"
  proof (rule map_keywords_invariant[OF mk, where I = ?I2])
    show "?I2 ([], [])" by simp
  next
    fix ms kall akw vol ts
    assume "?I2 (ms, kall)"
    then show "?I2 (ms @ [\<lparr>km_article_keyword = akw, km_article_search_volume = vol,
                     km_competitor_keywords = ts\<rparr>], foldl add_term kall ts)"
      by (auto simp: covers_foldl_old covers_foldl_new)
  qed
  then show "\<forall>m\<in>set (kd_keyword_mappings r). \<forall>t\<in>set (km_competitor_keywords m).
            \<exists>e\<in>set (kd_competitor_keywords r).
              strip (lower (ck_keyword e)) = strip (lower (ct_keyword t))
              \<and> ct_competitor t \<in> set (ck_used_by e)"
    by (simp add: covers_def list_ex_iff)
qed

theorem competitor_terms_merged_witness:
  "\<exists>r. ex_mapping_run = Inr r
      \<and> map ck_used_by (kd_competitor_keywords r) = [[''Typeform'', ''Jotform'']]
      \<and> distinct (map (\<lambda>e. strip (lower (ck_keyword e))) (kd_competitor_keywords r))"
proof -
  have c: "case ex_mapping_run of Inl e \<Rightarrow> False
        | Inr r \<Rightarrow> map ck_used_by (kd_competitor_keywords r) = [[''Typeform'', ''Jotform'']]"
    by code_simp
  show ?thesis
  proof (cases ex_mapping_run)
    case (Inl e)
    show ?thesis using c by (simp add: Inl)
  next
    case (Inr r)
    have u: "map ck_used_by (kd_competitor_keywords r) = [[''Typeform'', ''Jotform'']]"
      using c by (simp add: Inr)
    have run: "get_competitor_keywords (ex_env ex_keyword_monthly)
       [ex_article_keyword ''reCAPTCHA'' (Some 1200), ex_article_keyword ''form validation'' None]
       ''Forms'' ''week'' ''Title'' ''Body'' [ex_content ''Typeform'', ex_content ''Jotform''] = Inr r"
      using Inr by (simp add: ex_mapping_run_def)
    from competitor_terms_merged[THEN conjunct2, THEN mp, OF run]
    have d: "distinct (map (\<lambda>e. strip (lower (ck_keyword e))) (kd_competitor_keywords r))"
      by (rule conjunct1)
    show ?thesis
      by (rule exI[of _ r]) (simp only: Inr u d simp_thms)
  qed
qed

lemma json_span_braces: "json_span ''{}'' = Some ''{}''"
  by code_simp

lemma not_excluded_spam: "\<not> is_excluded_keyword ''Spam Protection''"
  by code_simp

text \<open>
  Claim C9 as stated fails: with the time range \<open>week\<close>, a response that omits
  \<open>weekly_volume\<close> but carries \<open>monthly_volume = 1200\<close> is stored with search volume 1200,
  not with the default 500.
\<close>

theorem mapping_volume_counterexample:
  "competitor_term_for (ex_env ex_keyword_monthly) ''reCAPTCHA'' ''Title'' ''Body'' ''week''
      ''weekly_volume'' (ex_content ''Typeform'')
   = Some \<lparr>ct_keyword = ''Spam Protection'', ct_competitor = ''Typeform'',
            ct_search_volume = 1200, ct_cpc = 3 / 2, ct_difficulty = ''medium'',
            ct_relevance_score = 7, ct_found_in = Some ''content''\<rparr>"
  by (simp add: competitor_term_for_def find_competitor_keyword_for_article_keyword_def
      get_volume_field_name_def ex_env_def ex_content_def ex_keyword_monthly_def json_span_braces
      not_excluded_spam get_def get_default_def oracle_keyword_nonempty_def get_volume_def py_or_def
      truthy_int_def truthy_rat_def truthy_str_def)

text \<open>
  Claim C9, amended. A competitor term with a non-empty, non-excluded text is stored
  whatever numeric fields the response omits. When the selected volume field is absent,
  the stored volume is the response's \<open>monthly_volume\<close> if that is present and not zero,
  and 500 otherwise (500 in particular when both are absent); an omitted \<open>cpc\<close> is stored
  as 1.5, an omitted \<open>difficulty\<close> as \<open>medium\<close>, an omitted \<open>relevance_score\<close> as 7 and an
  omitted \<open>found_in\<close> as \<open>content\<close>.
\<close>

theorem mapping_defaults:
  assumes "co_content c \<noteq> []"
    and "find_competitor_keyword_for_article_keyword env article_kw
           (article_title @ ''. '' @ take 300 article_content)
           (co_competitor_name c) (co_content c) (co_headings c) time_range = Inr (Some (Val ckw))"
    and "ok_keyword ckw = Val ckw_text" and "ckw_text \<noteq> []" and "\<not> is_excluded_keyword ckw_text"
  shows "\<exists>t. competitor_term_for env article_kw article_title article_content time_range volume_field c
              = Some t
           \<and> ct_keyword t = ckw_text \<and> ct_competitor t = co_competitor_name c
           \<and> (get_volume ckw volume_field = None \<longrightarrow>
                ct_search_volume t = py_or truthy_int (get (ok_monthly_volume ckw)) 500)
           \<and> (get_volume ckw volume_field = None \<and> get (ok_monthly_volume ckw) = None \<longrightarrow>
                ct_search_volume t = 500)
           \<and> (ok_cpc ckw = Missing \<longrightarrow> ct_cpc t = 3 / 2)
           \<and> (ok_difficulty ckw = Missing \<longrightarrow> ct_difficulty t = ''medium'')
           \<and> (ok_relevance_score ckw = Missing \<longrightarrow> ct_relevance_score t = 7)
           \<and> (ok_found_in ckw = Missing \<longrightarrow> ct_found_in t = Some ''content'')"
proof -
  have ne: "oracle_keyword_nonempty ckw"
    using assms(3) by (simp add: oracle_keyword_nonempty_def)
  show ?thesis
    using assms ne
    by (simp add: competitor_term_for_def get_def get_default_def py_or_def)
qed

theorem mapping_defaults_witness:
  "\<exists>t. competitor_term_for (ex_env ex_keyword_bare) ''reCAPTCHA'' ''Title'' ''Body'' ''week''
          ''weekly_volume'' (ex_content ''Typeform'') = Some t
       \<and> ct_keyword t = ''Spam Protection'' \<and> ct_competitor t = ''Typeform''
       \<and> ct_search_volume t = 500 \<and> ct_cpc t = 3 / 2 \<and> ct_difficulty t = ''medium''
       \<and> ct_relevance_score t = 7 \<and> ct_found_in t = Some ''content''"
proof -
  have a: "co_content (ex_content ''Typeform'') \<noteq> []" by (simp add: ex_content_def)
  have b: "find_competitor_keyword_for_article_keyword (ex_env ex_keyword_bare) ''reCAPTCHA''
           (''Title'' @ ''. '' @ take 300 ''Body'')
           (co_competitor_name (ex_content ''Typeform'')) (co_content (ex_content ''Typeform''))
           (co_headings (ex_content ''Typeform'')) ''week'' = Inr (Some (Val ex_keyword_bare))"
    by (simp add: find_competitor_keyword_for_article_keyword_def get_volume_field_name_def
        ex_env_def json_span_braces)
  have c: "ok_keyword ex_keyword_bare = Val ''Spam Protection''" by (simp add: ex_keyword_bare_def)
  have d: "''Spam Protection'' \<noteq> []" by simp
  from mapping_defaults[OF a b c d not_excluded_spam, of "''weekly_volume''"]
  obtain t where t:
    "competitor_term_for (ex_env ex_keyword_bare) ''reCAPTCHA'' ''Title'' ''Body'' ''week''
          ''weekly_volume'' (ex_content ''Typeform'') = Some t"
    "ct_keyword t = ''Spam Protection''" "ct_competitor t = co_competitor_name (ex_content ''Typeform'')"
    "get_volume ex_keyword_bare ''weekly_volume'' = None \<and> get (ok_monthly_volume ex_keyword_bare) = None
       \<longrightarrow> ct_search_volume t = 500"
    "ok_cpc ex_keyword_bare = Missing \<longrightarrow> ct_cpc t = 3 / 2"
    "ok_difficulty ex_keyword_bare = Missing \<longrightarrow> ct_difficulty t = ''medium''"
    "ok_relevance_score ex_keyword_bare = Missing \<longrightarrow> ct_relevance_score t = 7"
    "ok_found_in ex_keyword_bare = Missing \<longrightarrow> ct_found_in t = Some ''content''"
    by blast
  show ?thesis
    using t by (intro exI[of _ t]) (simp add: ex_keyword_bare_def ex_content_def get_volume_def get_def)
qed

subsection \<open>Excluded product terms\<close>

lemma is_substring_iff: "is_substring sub s \<longleftrightarrow> (\<exists>ps ss. s = ps @ sub @ ss)"
proof (induction s)
  case Nil
  then show ?case by auto
next
  case (Cons c cs)
  show ?case
  proof
    assume "is_substring sub (c # cs)"
    then consider "prefix sub (c # cs)" | "is_substring sub cs" by auto
    then show "\<exists>ps ss. c # cs = ps @ sub @ ss"
    proof cases
      case 1
      then obtain ss where "c # cs = sub @ ss" by (auto simp: prefix_def)
      then have "c # cs = [] @ sub @ ss" by simp
      then show ?thesis by blast
    next
      case 2
      then obtain ps ss where "cs = ps @ sub @ ss" using Cons.IH by blast
      then have "c # cs = (c # ps) @ sub @ ss" by simp
      then show ?thesis by blast
    qed
  next
    assume "\<exists>ps ss. c # cs = ps @ sub @ ss"
    then obtain ps ss where e: "c # cs = ps @ sub @ ss" by blast
    show "is_substring sub (c # cs)"
    proof (cases ps)
      case Nil
      then have "prefix sub (c # cs)" using e by (simp add: prefix_def)
      then show ?thesis by simp
    next
      case (Cons p ps')
      then have "cs = ps' @ sub @ ss" using e by simp
      then have "is_substring sub cs" using Cons.IH by blast
      then show ?thesis by simp
    qed
  qed
qed

lemma dropWhile_keeps_block:
  assumes "sub \<noteq> []" and "\<not> P (hd sub)"
  shows "\<exists>ps'. dropWhile P (ps @ sub @ ss) = ps' @ sub @ ss"
proof (induction ps)
  case Nil
  from assms obtain x xs where "sub = x # xs" "\<not> P x" by (cases sub) auto
  then have "dropWhile P ([] @ sub @ ss) = [] @ sub @ ss" by simp
  then show ?case by blast
next
  case (Cons p ps)
  show ?case
  proof (cases "P p")
    case True
    then show ?thesis using Cons by simp
  next
    case False
    then have "dropWhile P ((p # ps) @ sub @ ss) = (p # ps) @ sub @ ss" by simp
    then show ?thesis by blast
  qed
qed

lemma rstrip_keeps_block:
  assumes "sub \<noteq> []" and "\<not> P (last sub)"
  shows "\<exists>ss'. rstrip_chars P (ps @ sub @ ss) = ps @ sub @ ss'"
proof -
  have "rev sub \<noteq> []" "\<not> P (hd (rev sub))" using assms by (simp_all add: hd_rev)
  from dropWhile_keeps_block[of "rev sub" P "rev ss" "rev ps", OF this]
  obtain x where "dropWhile P (rev ss @ rev sub @ rev ps) = x @ rev sub @ rev ps" by blast
  then have "rstrip_chars P (ps @ sub @ ss) = ps @ sub @ rev x"
    by (simp add: rstrip_chars_def)
  then show ?thesis by blast
qed

lemma strip_keeps_block:
  assumes "sub \<noteq> []" and "\<not> is_space (hd sub)" and "\<not> is_space (last sub)"
    and "is_substring sub s"
  shows "is_substring sub (strip s)"
proof -
  from assms(4) obtain ps ss where s: "s = ps @ sub @ ss" by (auto simp: is_substring_iff)
  from rstrip_keeps_block[of sub is_space ps ss, OF assms(1,3)]
  obtain ss' where r: "rstrip_chars is_space s = ps @ sub @ ss'" unfolding s by blast
  from dropWhile_keeps_block[of sub is_space ps ss', OF assms(1,2)]
  obtain ps' where "dropWhile is_space (ps @ sub @ ss') = ps' @ sub @ ss'" by blast
  then have "strip s = ps' @ sub @ ss'" by (simp add: strip_def r)
  then show ?thesis unfolding is_substring_iff by blast
qed

lemma strip_is_block: "\<exists>ps ss. s = ps @ strip s @ ss"
proof -
  have a: "\<exists>ps. xs = ps @ dropWhile P xs" for P and xs :: string
    by (metis takeWhile_dropWhile_id)
  obtain qs where q: "rev s = qs @ dropWhile is_space (rev s)" using a by blast
  then have "s = rstrip_chars is_space s @ rev qs"
    by (metis rev_append rev_rev_ident rstrip_chars_def)
  moreover obtain ps where "rstrip_chars is_space s = ps @ strip s"
    unfolding strip_def using a by blast
  ultimately have "s = ps @ strip s @ rev qs" by simp
  then show ?thesis by blast
qed

lemma substring_of_strip:
  assumes "is_substring sub (strip s)" shows "is_substring sub s"
proof -
  from assms obtain ps ss where a: "strip s = ps @ sub @ ss" by (auto simp: is_substring_iff)
  obtain ps' ss' where "s = ps' @ strip s @ ss'" using strip_is_block by blast
  then have "s = (ps' @ ps) @ sub @ (ss @ ss')" by (simp add: a)
  then show ?thesis unfolding is_substring_iff by blast
qed

lemma excluded_terms_trimmed:
  "list_all (\<lambda>t. t \<noteq> [] \<and> \<not> is_space (hd t) \<and> \<not> is_space (last t)) EXCLUDED_PRODUCT_TERMS"
  by code_simp

lemma is_excluded_keyword_iff: "is_excluded_keyword k \<longleftrightarrow> contains_excluded_term k"
proof -
  have "is_substring t (strip (lower k)) \<longleftrightarrow> is_substring t (lower k)"
    if "t \<in> set EXCLUDED_PRODUCT_TERMS" for t
  proof -
    from that excluded_terms_trimmed
    have "t \<noteq> []" "\<not> is_space (hd t)" "\<not> is_space (last t)"
      by (auto simp: list_all_iff)
    then show ?thesis using strip_keeps_block substring_of_strip by blast
  qed
  then show ?thesis
    by (auto simp: is_excluded_keyword_def contains_excluded_term_def list_ex_iff)
qed

lemma filter_keywords_clean:
  assumes "filter_keywords vf acc kws = Inr r"
    and "\<forall>k\<in>set acc. \<exists>t. ak_keyword k = Val t \<and> \<not> contains_excluded_term t"
  shows "\<forall>k\<in>set r. \<exists>t. ak_keyword k = Val t \<and> \<not> contains_excluded_term t"
  using assms
proof (induction kws arbitrary: acc)
  case Nil
  then show ?case by simp
next
  case (Cons kw kws)
  show ?case
  proof (cases "get_default (ok_keyword kw) []")
    case None
    then show ?thesis using Cons by simp
  next
    case (Some kt)
    show ?thesis
    proof (cases "kt = []")
      case True
      then show ?thesis using Cons Some by simp
    next
      case False
      from Cons.prems(1) Some False obtain v c d where
        f: "get_volume kw vf = Some v" "get (ok_cpc kw) = Some c" "get (ok_difficulty kw) = Some d"
        by (auto split: option.splits)
      show ?thesis
      proof (cases "is_excluded_keyword kt")
        case True
        then show ?thesis using Cons Some False f by simp
      next
        case ne: False
        let ?acc = "acc @ [\<lparr>ak_keyword = Val kt, ak_search_volume = Some v,
                                  ak_cpc = Some c, ak_difficulty = Some d,
                                  ak_tool = ''Azure OpenAI + Web Scraping'',
                                  ak_source = ''Article Content Analysis'',
                                  ak_semrush_url = generate_semrush_url kt\<rparr>]"
        have run: "filter_keywords vf ?acc kws = Inr r"
          using Cons.prems(1) Some False f ne by simp
        have inv: "\<forall>k\<in>set ?acc. \<exists>t. ak_keyword k = Val t \<and> \<not> contains_excluded_term t"
          using Cons.prems(2) ne by (auto simp: is_excluded_keyword_iff)
        from Cons.IH[OF run inv] show ?thesis .
      qed
    qed
  qed
qed

lemma extract_article_keywords_clean:
  assumes "extract_article_keywords env title headings content url time_range = Inr kws"
  shows "\<forall>k\<in>set kws. \<exists>t. ak_keyword k = Val t \<and> \<not> contains_excluded_term t"
proof -
  from assms obtain vf ks filtered where
    f: "filter_keywords vf [] ks = Inr filtered" and k: "kws = take 10 filtered"
    by (auto simp: extract_article_keywords_def split: sum.splits option.splits if_splits)
  from filter_keywords_clean[OF f] have "\<forall>k\<in>set filtered. \<exists>t. ak_keyword k = Val t \<and> \<not> contains_excluded_term t"
    by simp
  then show ?thesis unfolding k using in_set_takeD by fast
qed

lemma clean_article_keywords_clean:
  "\<forall>k\<in>set (clean_article_keywords aks). \<not> contains_excluded_term (ac_keyword k)"
  by (auto simp: clean_article_keywords_def map_filter_def is_excluded_keyword_iff
      split: option.splits if_splits)

lemma competitor_term_for_clean:
  assumes "competitor_term_for env akw title content tr vf c = Some t"
  shows "\<not> contains_excluded_term (ct_keyword t)"
  using assms
  by (auto simp: competitor_term_for_def Let_def is_excluded_keyword_iff
      split: if_splits sum.splits option.splits)

lemma add_term_keywords:
  "set (map ck_keyword (add_term kws t)) \<subseteq> insert (ct_keyword t) (set (map ck_keyword kws))"
  unfolding map_keyword_add_term by auto

lemma foldl_add_term_clean:
  assumes "\<forall>e\<in>set kws. \<not> contains_excluded_term (ck_keyword e)"
    and "\<forall>t\<in>set ts. \<not> contains_excluded_term (ct_keyword t)"
  shows "\<forall>e\<in>set (foldl add_term kws ts). \<not> contains_excluded_term (ck_keyword e)"
  using assms
proof (induction ts arbitrary: kws)
  case Nil
  then show ?case by simp
next
  case (Cons t ts)
  have "\<forall>e\<in>set (add_term kws t). \<not> contains_excluded_term (ck_keyword e)"
  proof
    fix e assume "e \<in> set (add_term kws t)"
    then have "ck_keyword e \<in> set (map ck_keyword (add_term kws t))" by simp
    then have "ck_keyword e \<in> insert (ct_keyword t) (set (map ck_keyword kws))"
      using add_term_keywords by blast
    then show "\<not> contains_excluded_term (ck_keyword e)" using Cons.prems by auto
  qed
  then show ?case using Cons by simp
qed

lemma suggest_loop_keywords:
  "sk_keyword ` set (suggest_loop seen acc pool) \<subseteq> sk_keyword ` set acc \<union> pk_keyword ` set pool"
proof (induction pool arbitrary: seen acc)
  case Nil
  then show ?case by simp
next
  case (Cons kw pool)
  define fresh where "fresh = (lower (pk_keyword kw) \<noteq> [] \<and> lower (pk_keyword kw) \<notin> seen)"
  define seen' where "seen' = (if fresh then insert (lower (pk_keyword kw)) seen else seen)"
  define acc' where "acc' = (if fresh then acc @ [suggested_of kw] else acc)"
  have a: "sk_keyword ` set acc' \<subseteq> sk_keyword ` set acc \<union> {pk_keyword kw}"
    by (auto simp: acc'_def suggested_of_def)
  have step: "suggest_loop seen acc (kw # pool)
        = (if 5 \<le> length acc' then acc' else suggest_loop seen' acc' pool)"
    by (simp add: Let_def fresh_def seen'_def acc'_def)
  have ih: "sk_keyword ` set (suggest_loop seen' acc' pool)
          \<subseteq> sk_keyword ` set acc' \<union> pk_keyword ` set pool" by (rule Cons.IH)
  have p: "pk_keyword ` set (kw # pool) = {pk_keyword kw} \<union> pk_keyword ` set pool" by simp
  show ?case
  proof (cases "5 \<le> length acc'")
    case True
    then have e: "suggest_loop seen acc (kw # pool) = acc'" using step by simp
    have "sk_keyword ` set acc'
            \<subseteq> sk_keyword ` set acc \<union> ({pk_keyword kw} \<union> pk_keyword ` set pool)"
      using a by blast
    then show ?thesis unfolding e p .
  next
    case False
    then have e: "suggest_loop seen acc (kw # pool) = suggest_loop seen' acc' pool"
      using step by simp
    have "sk_keyword ` set (suggest_loop seen' acc' pool)
            \<subseteq> sk_keyword ` set acc \<union> ({pk_keyword kw} \<union> pk_keyword ` set pool)"
      using ih a by blast
    then show ?thesis unfolding e p .
  qed
qed

lemma suggest_keywords_keywords:
  "sk_keyword ` set (suggest_keywords clean kall) \<subseteq> ac_keyword ` set clean \<union> ck_keyword ` set kall"
proof -
  have "pk_keyword ` set (sort_desc volume_key (all_keywords_for_suggestion clean kall))
        \<subseteq> ac_keyword ` set clean \<union> ck_keyword ` set kall"
    by (auto simp: sort_desc_def all_keywords_for_suggestion_def pool_of_article_def
        pool_of_competitor_def)
  moreover have "sk_keyword ` set (suggest_keywords clean kall)
      \<subseteq> pk_keyword ` set (sort_desc volume_key (all_keywords_for_suggestion clean kall))"
    unfolding suggest_keywords_def using suggest_loop_keywords[of "{}" "[]"] by simp
  ultimately show ?thesis by (rule order_trans[rotated])
qed

lemma get_competitor_keywords_Inr:
  assumes "get_competitor_keywords env aks product tr title content cc = Inr r"
  obtains vf kwl where
    "map_keywords env aks title content tr vf (take 2 cc) ([], []) kwl
       = Inr (kd_keyword_mappings r, kd_competitor_keywords r)"
    "kd_article_keywords r = clean_article_keywords aks"
    "kd_suggested_keywords r
       = suggest_keywords (clean_article_keywords aks) (kd_competitor_keywords r)"
  using assms
  by (auto simp: get_competitor_keywords_def Let_def split: option.splits sum.splits if_splits)

text \<open>
  Claim C3. No keyword list of any stage holds an entry whose text contains an excluded
  product term as a substring, ignoring case: the keywords that
  \<open>extract_article_keywords\<close> returns, and the \<open>article_keywords\<close>, \<open>competitor_keywords\<close>,
  \<open>suggested_keywords\<close> and the \<open>competitor_keywords\<close> of every keyword mapping that
  \<open>get_competitor_keywords\<close> returns.
\<close>

theorem no_excluded_terms:
  "(extract_article_keywords env title headings content url time_range = Inr kws \<longrightarrow>
      (\<forall>k\<in>set kws. \<exists>t. ak_keyword k = Val t \<and> \<not> contains_excluded_term t))
   \<and> (get_competitor_keywords env article_keywords product time_range article_title
         article_content competitor_content = Inr r \<longrightarrow>
       (\<forall>k\<in>set (kd_article_keywords r). \<not> contains_excluded_term (ac_keyword k))
       \<and> (\<forall>k\<in>set (kd_competitor_keywords r). \<not> contains_excluded_term (ck_keyword k))
       \<and> (\<forall>k\<in>set (kd_suggested_keywords r). \<not> contains_excluded_term (sk_keyword k))
       \<and> (\<forall>m\<in>set (kd_keyword_mappings r). \<forall>t\<in>set (km_competitor_keywords m).
            \<not> contains_excluded_term (ct_keyword t)))"
proof (intro conjI impI)
  assume "extract_article_keywords env title headings content url time_range = Inr kws"
  then show "\<forall>k\<in>set kws. \<exists>t. ak_keyword k = Val t \<and> \<not> contains_excluded_term t"
    by (rule extract_article_keywords_clean)
next
  assume run: "get_competitor_keywords env article_keywords product time_range article_title
         article_content competitor_content = Inr r"
  from run obtain vf kwl where
    mk: "map_keywords env article_keywords article_title article_content time_range vf
           (take 2 competitor_content) ([], []) kwl
         = Inr (kd_keyword_mappings r, kd_competitor_keywords r)"
    and ca: "kd_article_keywords r = clean_article_keywords article_keywords"
    and su: "kd_suggested_keywords r
       = suggest_keywords (clean_article_keywords article_keywords) (kd_competitor_keywords r)"
    by (rule get_competitor_keywords_Inr)
  show a: "\<forall>k\<in>set (kd_article_keywords r). \<not> contains_excluded_term (ac_keyword k)"
    unfolding ca by (rule clean_article_keywords_clean)
  let ?I = "\<lambda>st :: keyword_mapping list \<times> competitor_keyword list.
      (\<forall>m\<in>set (fst st). \<forall>t\<in>set (km_competitor_keywords m). \<not> contains_excluded_term (ct_keyword t))
      \<and> (\<forall>e\<in>set (snd st). \<not> contains_excluded_term (ck_keyword e))"
  have inv: "?I (kd_keyword_mappings r, kd_competitor_keywords r)"
  proof (rule map_keywords_invariant[OF mk, where I = ?I])
    show "?I ([], [])" by simp
  next
    fix ms kall akw vol ts
    assume i: "?I (ms, kall)"
      and ts: "\<forall>t\<in>set ts. \<exists>c. competitor_term_for env akw article_title article_content
                  time_range vf c = Some t"
    have c: "\<forall>t\<in>set ts. \<not> contains_excluded_term (ct_keyword t)"
      using ts competitor_term_for_clean by blast
    have k: "\<forall>e\<in>set kall. \<not> contains_excluded_term (ck_keyword e)" using i by simp
    have "\<forall>e\<in>set (foldl add_term kall ts). \<not> contains_excluded_term (ck_keyword e)"
      by (rule foldl_add_term_clean[OF k c])
    then show "?I (ms @ [\<lparr>km_article_keyword = akw, km_article_search_volume = vol,
                     km_competitor_keywords = ts\<rparr>], foldl add_term kall ts)"
      using i c by auto
  qed
  then show b: "\<forall>k\<in>set (kd_competitor_keywords r). \<not> contains_excluded_term (ck_keyword k)"
    by simp
  from inv show "\<forall>m\<in>set (kd_keyword_mappings r). \<forall>t\<in>set (km_competitor_keywords m).
            \<not> contains_excluded_term (ct_keyword t)"
    by simp
  show "\<forall>k\<in>set (kd_suggested_keywords r). \<not> contains_excluded_term (sk_keyword k)"
  proof
    fix k assume "k \<in> set (kd_suggested_keywords r)"
    then have "sk_keyword k \<in> ac_keyword ` set (kd_article_keywords r)
                 \<union> ck_keyword ` set (kd_competitor_keywords r)"
      unfolding su ca using suggest_keywords_keywords by blast
    then show "\<not> contains_excluded_term (sk_keyword k)" using a b by auto
  qed
qed

lemma ex_mapping_run_result: "ex_mapping_run = Inr ex_mapping_result"
  by code_simp

lemma ex_extract_run_result: "ex_extract_run = Inr [ex_extracted]"
  by code_simp

theorem no_excluded_terms_witness:
  "ex_extract_run = Inr [ex_extracted]
   \<and> \<not> contains_excluded_term ''form validation''
   \<and> ex_mapping_run = Inr ex_mapping_result
   \<and> \<not> contains_excluded_term ''reCAPTCHA''
   \<and> \<not> contains_excluded_term ''Spam Protection''"
proof -
  have r1: "extract_article_keywords ex_extract_env ''Title'' [] ''Body'' ''https://example.com/''
              ''month'' = Inr [ex_extracted]"
    using ex_extract_run_result by (simp add: ex_extract_run_def)
  have r2: "get_competitor_keywords (ex_env ex_keyword_monthly)
       [ex_article_keyword ''reCAPTCHA'' (Some 1200), ex_article_keyword ''form validation'' None]
       ''Forms'' ''week'' ''Title'' ''Body'' [ex_content ''Typeform'', ex_content ''Jotform'']
       = Inr ex_mapping_result"
    using ex_mapping_run_result by (simp add: ex_mapping_run_def)
  from no_excluded_terms[THEN conjunct1, THEN mp, OF r1]
  have a: "\<not> contains_excluded_term ''form validation''"
    by (simp add: ex_extracted_def)
  from no_excluded_terms[THEN conjunct2, THEN mp, OF r2]
  have b: "\<not> contains_excluded_term ''reCAPTCHA''" "\<not> contains_excluded_term ''Spam Protection''"
    by (simp_all add: ex_mapping_result_def)
  show ?thesis
    using a b ex_extract_run_result ex_mapping_run_result by simp
qed

subsection \<open>Suggestion ranker\<close>

lemma subseq_first_per_key: "subseq (first_per_key key xs) xs"
proof (induction key xs rule: first_per_key.induct)
  case (1 key)
  then show ?case by simp
next
  case (2 key x xs)
  have "subseq (first_per_key key (filter (\<lambda>y. key y \<noteq> key x) xs)) xs"
    using 2 subseq_filter_left subseq_order.order_trans by blast
  then show ?case by simp
qed

lemma set_first_per_key: "set (first_per_key key xs) \<subseteq> set xs"
proof (induction key xs rule: first_per_key.induct)
  case (1 key)
  then show ?case by simp
next
  case (2 key x xs)
  then show ?case by auto
qed

lemma distinct_first_per_key: "distinct (map key (first_per_key key xs))"
proof (induction key xs rule: first_per_key.induct)
  case (1 key)
  then show ?case by simp
next
  case (2 key x xs)
  have "key x \<notin> key ` set (first_per_key key (filter (\<lambda>y. key y \<noteq> key x) xs))"
    using set_first_per_key[of key "filter (\<lambda>y. key y \<noteq> key x) xs"] by auto
  then show ?case using 2 by simp
qed

lemma sorted_wrt_subseq:
  assumes "subseq xs ys" and "sorted_wrt R ys"
  shows "sorted_wrt R xs"
  using assms
proof (induction rule: list_emb.induct)
  case (list_emb_Nil ys)
  then show ?case by simp
next
  case (list_emb_Cons xs ys y)
  then show ?case by simp
next
  case (list_emb_Cons2 x y xs ys)
  have "set xs \<subseteq> set ys"
  proof
    fix z assume "z \<in> set xs"
    with list_emb_Cons2.hyps(2) obtain y' where "y' \<in> set ys" "z = y'" by (rule list_emb_set)
    then show "z \<in> set ys" by simp
  qed
  then show ?case using list_emb_Cons2 by auto
qed

lemma subseq_take: "subseq (take n xs) xs"
proof -
  have "subseq (take n xs) (take n xs @ drop n xs)" by (rule subseq_rev_drop_many) simp
  then show ?thesis by simp
qed

lemma suggest_loop_spec:
  assumes "length acc < 5"
  shows "suggest_loop seen acc pool =
           take 5 (acc @ map suggested_of
             (first_per_key (\<lambda>x. lower (pk_keyword x))
                (filter (\<lambda>x. lower (pk_keyword x) \<noteq> [] \<and> lower (pk_keyword x) \<notin> seen) pool)))"
  using assms
proof (induction pool arbitrary: seen acc)
  case Nil
  then show ?case by simp
next
  case (Cons kw pool)
  let ?k = "\<lambda>x. lower (pk_keyword x)"
  show ?case
  proof (cases "?k kw \<noteq> [] \<and> ?k kw \<notin> seen")
    case fresh: True
    have f: "filter (\<lambda>y. ?k y \<noteq> ?k kw) (filter (\<lambda>x. ?k x \<noteq> [] \<and> ?k x \<notin> seen) pool)
           = filter (\<lambda>x. ?k x \<noteq> [] \<and> ?k x \<notin> insert (?k kw) seen) pool"
      by (induction pool) auto
    show ?thesis
    proof (cases "length acc = 4")
      case True
      have "filter (\<lambda>x. ?k x \<noteq> [] \<and> ?k x \<notin> seen) (kw # pool)
              = kw # filter (\<lambda>x. ?k x \<noteq> [] \<and> ?k x \<notin> seen) pool"
        using fresh by simp
      then have rhs: "first_per_key ?k (filter (\<lambda>x. ?k x \<noteq> [] \<and> ?k x \<notin> seen) (kw # pool))
              = kw # first_per_key ?k (filter (\<lambda>x. ?k x \<noteq> [] \<and> ?k x \<notin> insert (?k kw) seen) pool)"
        by (simp only: first_per_key.simps f)
      have "suggest_loop seen acc (kw # pool) = acc @ [suggested_of kw]"
        using fresh True by (simp add: Let_def)
      then show ?thesis unfolding rhs using True by simp
    next
      case False
      then have l: "length (acc @ [suggested_of kw]) < 5" using Cons.prems by simp
      have "suggest_loop seen acc (kw # pool)
              = suggest_loop (insert (?k kw) seen) (acc @ [suggested_of kw]) pool"
        using fresh l by (simp add: Let_def)
      also have "\<dots> = take 5 ((acc @ [suggested_of kw]) @ map suggested_of
             (first_per_key ?k (filter (\<lambda>x. ?k x \<noteq> [] \<and> ?k x \<notin> insert (?k kw) seen) pool)))"
        by (rule Cons.IH[OF l])
      finally have lhs: "suggest_loop seen acc (kw # pool)
              = take 5 ((acc @ [suggested_of kw]) @ map suggested_of
             (first_per_key ?k (filter (\<lambda>x. ?k x \<noteq> [] \<and> ?k x \<notin> insert (?k kw) seen) pool)))" .
      have "filter (\<lambda>x. ?k x \<noteq> [] \<and> ?k x \<notin> seen) (kw # pool)
              = kw # filter (\<lambda>x. ?k x \<noteq> [] \<and> ?k x \<notin> seen) pool"
        using fresh by simp
      then have rhs: "first_per_key ?k (filter (\<lambda>x. ?k x \<noteq> [] \<and> ?k x \<notin> seen) (kw # pool))
              = kw # first_per_key ?k (filter (\<lambda>x. ?k x \<noteq> [] \<and> ?k x \<notin> insert (?k kw) seen) pool)"
        by (simp only: first_per_key.simps f)
      show ?thesis unfolding lhs rhs by simp
    qed
  next
    case False
    then have "suggest_loop seen acc (kw # pool) = suggest_loop seen acc pool"
      using Cons.prems by (auto simp: Let_def)
    then show ?thesis using False Cons.IH[OF Cons.prems] by auto
  qed
qed

lemma volume_key_eq: "volume_key x = (case pk_search_volume x of Some v \<Rightarrow> v | None \<Rightarrow> 0)"
  by (simp add: volume_key_def py_or_def truthy_int_def split: option.splits)

lemma pool_has_volume:
  "x \<in> set (all_keywords_for_suggestion clean kall) \<Longrightarrow> pk_search_volume x = Some (volume_key x)"
  by (auto simp: all_keywords_for_suggestion_def pool_of_article_def pool_of_competitor_def
      volume_key_eq)

lemma sorted_sort_desc: "sorted_wrt (\<lambda>a b. key a \<ge> key b) (sort_desc key xs)"
proof -
  have "sorted (map (\<lambda>x. - key x) (sort_key (\<lambda>x. - key x) xs))" by (rule sorted_sort_key)
  then show ?thesis by (simp add: sort_desc_def sorted_map sorted_wrt_iff_nth_less)
qed

lemma sort_desc_stable:
  "filter (\<lambda>x. key x = v) (sort_desc key xs) = filter (\<lambda>x. key x = v) xs"
proof -
  have "filter (\<lambda>x. - key x = - v) (sort_key (\<lambda>x. - key x) xs) = filter (\<lambda>x. - key x = - v) xs"
    by (rule sort_key_stable)
  then show ?thesis by (simp add: sort_desc_def)
qed

lemma suggest_keywords_spec:
  "suggest_keywords clean kall =
     map suggested_of
       (take 5 (first_per_key (\<lambda>x. lower (pk_keyword x))
          (filter (\<lambda>x. pk_keyword x \<noteq> [])
             (sort_desc volume_key (all_keywords_for_suggestion clean kall)))))"
proof -
  have "lower s = [] \<longleftrightarrow> s = []" for s by (simp add: lower_def)
  then show ?thesis
    unfolding suggest_keywords_def using suggest_loop_spec[of "[]" "{}"]
    by (simp add: take_map)
qed

text \<open>
  Claim C1. The suggestion ranker returns at most five entries, no two of them with the
  same text up to case, every one with a search volume, in order of non-increasing
  volume. The pool is the cleaned article keywords that have a volume followed by the
  merged competitor keywords; it is sorted by volume in descending order with a stable
  sort (entries of equal volume keep their pool order), entries without text are skipped,
  the first occurrence of each lower-cased text is kept, and the first five remain. Among
  the suggestions of one volume the pool order is kept, so an article keyword stands
  before a competitor keyword of the same volume. The result of
  \<open>get_competitor_keywords\<close> holds exactly this list.
\<close>

theorem suggested_keywords_ranked:
  "length (suggest_keywords clean kall) \<le> 5
   \<and> distinct (map (\<lambda>s. lower (sk_keyword s)) (suggest_keywords clean kall))
   \<and> (\<exists>vs. map sk_search_volume (suggest_keywords clean kall) = map Some vs
          \<and> sorted_wrt (\<lambda>a b. a \<ge> b) vs)
   \<and> suggest_keywords clean kall =
       map suggested_of
         (take 5 (first_per_key (\<lambda>x. lower (pk_keyword x))
            (filter (\<lambda>x. pk_keyword x \<noteq> [])
               (sort_desc volume_key (all_keywords_for_suggestion clean kall)))))
   \<and> all_keywords_for_suggestion clean kall =
       map pool_of_article (filter (\<lambda>a. ac_search_volume a \<noteq> None) clean)
       @ map pool_of_competitor kall
   \<and> sorted_wrt (\<lambda>a b. volume_key a \<ge> volume_key b)
       (sort_desc volume_key (all_keywords_for_suggestion clean kall))
   \<and> mset (sort_desc volume_key (all_keywords_for_suggestion clean kall))
       = mset (all_keywords_for_suggestion clean kall)
   \<and> (\<forall>v. filter (\<lambda>x. volume_key x = v)
             (sort_desc volume_key (all_keywords_for_suggestion clean kall))
          = filter (\<lambda>x. volume_key x = v) (all_keywords_for_suggestion clean kall))
   \<and> (\<forall>v. subseq (filter (\<lambda>s. sk_search_volume s = Some v) (suggest_keywords clean kall))
                 (map suggested_of
                    (filter (\<lambda>x. pk_search_volume x = Some v)
                       (all_keywords_for_suggestion clean kall))))
   \<and> (get_competitor_keywords env article_keywords product time_range article_title
         article_content competitor_content = Inr r \<longrightarrow>
       kd_suggested_keywords r
         = suggest_keywords (kd_article_keywords r) (kd_competitor_keywords r))"
proof -
  define P where "P = all_keywords_for_suggestion clean kall"
  define S where "S = sort_desc volume_key P"
  define F where "F = first_per_key (\<lambda>x. lower (pk_keyword x)) (filter (\<lambda>x. pk_keyword x \<noteq> []) S)"
  define L where "L = take 5 F"
  have R: "suggest_keywords clean kall = map suggested_of L"
    unfolding L_def F_def S_def P_def by (rule suggest_keywords_spec)
  have setS: "set S = set P" by (simp add: S_def sort_desc_def)
  have subF: "subseq F S"
    unfolding F_def
    using subseq_first_per_key subseq_filter_left subseq_order.order_trans by blast
  have subL: "subseq L S"
    unfolding L_def using subseq_take subF subseq_order.order_trans by blast
  have setL: "set L \<subseteq> set P"
  proof
    fix z assume "z \<in> set L"
    with subL obtain y where "y \<in> set S" "z = y" by (rule list_emb_set)
    then show "z \<in> set P" using setS by simp
  qed
  have sortedS: "sorted_wrt (\<lambda>a b. volume_key a \<ge> volume_key b) S"
    unfolding S_def by (rule sorted_sort_desc)
  have c1: "length (suggest_keywords clean kall) \<le> 5"
    unfolding R L_def by simp
  have "distinct (map (\<lambda>x. lower (pk_keyword x)) F)"
    unfolding F_def by (rule distinct_first_per_key)
  then have "distinct (take 5 (map (\<lambda>x. lower (pk_keyword x)) F))" by (rule distinct_take)
  then have c2: "distinct (map (\<lambda>s. lower (sk_keyword s)) (suggest_keywords clean kall))"
    unfolding R L_def by (simp add: take_map comp_def suggested_of_def)
  have vol: "map sk_search_volume (suggest_keywords clean kall) = map Some (map volume_key L)"
  proof -
    have "map sk_search_volume (map suggested_of L) = map pk_search_volume L"
      by (simp add: suggested_of_def comp_def)
    also have "\<dots> = map (\<lambda>x. Some (volume_key x)) L"
      using setL pool_has_volume[of _ clean kall] unfolding P_def by (intro map_cong) auto
    finally show ?thesis unfolding R by (simp add: comp_def)
  qed
  have "sorted_wrt (\<lambda>a b. volume_key a \<ge> volume_key b) L"
    using subL sortedS by (rule sorted_wrt_subseq)
  then have "sorted_wrt (\<lambda>a b. a \<ge> b) (map volume_key L)" by (simp add: sorted_wrt_map)
  with vol have c3: "\<exists>vs. map sk_search_volume (suggest_keywords clean kall) = map Some vs
          \<and> sorted_wrt (\<lambda>a b. a \<ge> b) vs" by blast
  have c7: "subseq (filter (\<lambda>s. sk_search_volume s = Some v) (suggest_keywords clean kall))
                 (map suggested_of (filter (\<lambda>x. pk_search_volume x = Some v) P))" for v
  proof -
    have a: "filter (\<lambda>s. sk_search_volume s = Some v) (map suggested_of L)
           = map suggested_of (filter (\<lambda>x. pk_search_volume x = Some v) L)"
      by (simp add: filter_map comp_def suggested_of_def)
    have eqv: "pk_search_volume x = Some v \<longleftrightarrow> volume_key x = v" if "x \<in> set P" for x
      using pool_has_volume[of x clean kall] that unfolding P_def by auto
    have "filter (\<lambda>x. pk_search_volume x = Some v) S = filter (\<lambda>x. volume_key x = v) S"
      using eqv setS by (intro filter_cong) auto
    also have "\<dots> = filter (\<lambda>x. volume_key x = v) P"
      unfolding S_def by (rule sort_desc_stable)
    also have "\<dots> = filter (\<lambda>x. pk_search_volume x = Some v) P"
      using eqv by (intro filter_cong) auto
    finally have b: "filter (\<lambda>x. pk_search_volume x = Some v) S
                   = filter (\<lambda>x. pk_search_volume x = Some v) P" .
    have "subseq (filter (\<lambda>x. pk_search_volume x = Some v) L)
                 (filter (\<lambda>x. pk_search_volume x = Some v) S)"
      using subL by (rule subseq_filter)
    then have "subseq (map suggested_of (filter (\<lambda>x. pk_search_volume x = Some v) L))
                 (map suggested_of (filter (\<lambda>x. pk_search_volume x = Some v) P))"
      unfolding b by (rule subseq_map)
    then show ?thesis unfolding R a .
  qed
  have c8: "get_competitor_keywords env article_keywords product time_range article_title
         article_content competitor_content = Inr r \<longrightarrow>
       kd_suggested_keywords r
         = suggest_keywords (kd_article_keywords r) (kd_competitor_keywords r)"
  proof
    assume "get_competitor_keywords env article_keywords product time_range article_title
         article_content competitor_content = Inr r"
    then obtain vf kwl where
      "kd_article_keywords r = clean_article_keywords article_keywords"
      "kd_suggested_keywords r
         = suggest_keywords (clean_article_keywords article_keywords) (kd_competitor_keywords r)"
      by (rule get_competitor_keywords_Inr)
    then show "kd_suggested_keywords r
         = suggest_keywords (kd_article_keywords r) (kd_competitor_keywords r)" by simp
  qed
  have c4: "suggest_keywords clean kall =
       map suggested_of
         (take 5 (first_per_key (\<lambda>x. lower (pk_keyword x))
            (filter (\<lambda>x. pk_keyword x \<noteq> [])
               (sort_desc volume_key (all_keywords_for_suggestion clean kall)))))"
    by (rule suggest_keywords_spec)
  have c5: "all_keywords_for_suggestion clean kall =
       map pool_of_article (filter (\<lambda>a. ac_search_volume a \<noteq> None) clean)
       @ map pool_of_competitor kall"
    by (simp add: all_keywords_for_suggestion_def)
  have c6a: "mset (sort_desc volume_key (all_keywords_for_suggestion clean kall))
       = mset (all_keywords_for_suggestion clean kall)"
    by (simp add: sort_desc_def)
  have c6b: "\<forall>v. filter (\<lambda>x. volume_key x = v)
             (sort_desc volume_key (all_keywords_for_suggestion clean kall))
          = filter (\<lambda>x. volume_key x = v) (all_keywords_for_suggestion clean kall)"
    by (simp add: sort_desc_stable)
  note c6 = sortedS[unfolded S_def P_def]
  note c7' = c7[unfolded P_def]
  show ?thesis
    by (intro conjI allI c1 c2 c3 c4 c5 c6 c6a c6b[rule_format] c7' c8)
qed

theorem suggested_keywords_ranked_witness:
  "ex_mapping_run = Inr ex_mapping_result
   \<and> kd_suggested_keywords ex_mapping_result
       = suggest_keywords (kd_article_keywords ex_mapping_result)
           (kd_competitor_keywords ex_mapping_result)
   \<and> map sk_keyword (kd_suggested_keywords ex_mapping_result) = [''reCAPTCHA'', ''Spam Protection'']
   \<and> map sk_search_volume (kd_suggested_keywords ex_mapping_result) = [Some 1200, Some 1200]"
proof -
  have r2: "get_competitor_keywords (ex_env ex_keyword_monthly)
       [ex_article_keyword ''reCAPTCHA'' (Some 1200), ex_article_keyword ''form validation'' None]
       ''Forms'' ''week'' ''Title'' ''Body'' [ex_content ''Typeform'', ex_content ''Jotform'']
       = Inr ex_mapping_result"
    using ex_mapping_run_result by (simp add: ex_mapping_run_def)
  have a: "kd_suggested_keywords ex_mapping_result
       = suggest_keywords (kd_article_keywords ex_mapping_result)
           (kd_competitor_keywords ex_mapping_result)"
    using suggested_keywords_ranked[of "[]" "[]"] r2 by blast
  have b: "map sk_keyword (kd_suggested_keywords ex_mapping_result)
             = [''reCAPTCHA'', ''Spam Protection'']"
    by (simp add: ex_mapping_result_def)
  have c: "map sk_search_volume (kd_suggested_keywords ex_mapping_result) = [Some 1200, Some 1200]"
    by (simp add: ex_mapping_result_def)
  show ?thesis
    by (intro conjI ex_mapping_run_result a b c)
qed

subsection \<open>Capability identification and request validation\<close>

lemma find_from_takeWhile:
  "find_from c s i = (if c \<in> set s then i + int (length (takeWhile (\<lambda>x. x \<noteq> c) s)) else - 1)"
  by (induction s arbitrary: i) auto

lemma str_find_first:
  assumes "c \<notin> set pre"
  shows "str_find c (pre @ c # rest) = int (length pre)"
proof -
  have "takeWhile (\<lambda>x. x \<noteq> c) (pre @ c # rest) = pre"
    using assms by (induction pre) auto
  then show ?thesis by (simp add: str_find_def find_from_takeWhile)
qed

lemma str_find_none: "c \<notin> set s \<Longrightarrow> str_find c s = - 1"
  by (simp add: str_find_def find_from_takeWhile)

lemma str_rfind_last:
  assumes "c \<notin> set post"
  shows "str_rfind c (front @ c # post) = int (length front)"
proof -
  have "str_find c (rev post @ c # rev front) = int (length (rev post))"
    by (rule str_find_first) (use assms in simp)
  then show ?thesis by (simp add: str_rfind_def)
qed

lemma str_rfind_none: "c \<notin> set s \<Longrightarrow> str_rfind c s = - 1"
  by (simp add: str_rfind_def str_find_none)

lemma json_span_first_last:
  assumes "CHR ''{'' \<notin> set pre" and "CHR ''}'' \<notin> set post"
  shows "json_span (pre @ ''{'' @ mid @ ''}'' @ post) = Some (''{'' @ mid @ ''}'')"
proof -
  let ?r = "pre @ ''{'' @ mid @ ''}'' @ post"
  have s: "str_find (CHR ''{'') ?r = int (length pre)"
    using str_find_first[OF assms(1), of "mid @ ''}'' @ post"] by simp
  have e: "str_rfind (CHR ''}'') ?r = int (length (pre @ ''{'' @ mid))"
    using str_rfind_last[OF assms(2), of "pre @ ''{'' @ mid"] by simp
  have n: "nat (int (length (pre @ ''{'' @ mid)) + 1) = length pre + (length mid + 2)"
    by simp
  have t: "take (length pre + (length mid + 2)) ?r = pre @ ''{'' @ mid @ ''}''"
    by simp
  have "slice ?r (int (length pre)) (int (length (pre @ ''{'' @ mid)) + 1) = ''{'' @ mid @ ''}''"
    unfolding slice_def n t by simp
  then show ?thesis
    unfolding json_span_def s e by (simp add: Let_def)
qed

lemma json_span_Some:
  assumes "json_span response = Some json_text"
  shows "\<exists>pre mid post. response = pre @ ''{'' @ mid @ ''}'' @ post \<and> CHR ''{'' \<notin> set pre
           \<and> CHR ''}'' \<notin> set post \<and> json_text = ''{'' @ mid @ ''}''"
proof -
  have o: "CHR ''{'' \<in> set response"
  proof (rule ccontr)
    assume "CHR ''{'' \<notin> set response"
    then have "str_find (CHR ''{'') response = - 1" by (rule str_find_none)
    then show False using assms by (simp add: json_span_def Let_def)
  qed
  have c: "CHR ''}'' \<in> set response"
  proof (rule ccontr)
    assume "CHR ''}'' \<notin> set response"
    then have "str_rfind (CHR ''}'') response = - 1" by (rule str_rfind_none)
    moreover have "0 \<le> str_find (CHR ''{'') response"
      using o by (simp add: str_find_def find_from_takeWhile)
    ultimately show False
      using assms by (simp add: json_span_def Let_def split: if_splits)
  qed
  from split_list_first[OF o] obtain pre rest where
    p: "response = pre @ CHR ''{'' # rest" "CHR ''{'' \<notin> set pre" by blast
  from split_list_last[OF c] obtain front post where
    f: "response = front @ CHR ''}'' # post" "CHR ''}'' \<notin> set post" by blast
  have s: "str_find (CHR ''{'') response = int (length pre)"
    unfolding p(1) by (rule str_find_first[OF p(2)])
  have e: "str_rfind (CHR ''}'') response = int (length front)"
    unfolding f(1) by (rule str_rfind_last[OF f(2)])
  have le: "length pre \<le> length front"
    using assms unfolding json_span_def s e by (simp add: Let_def split: if_splits)
  have ne: "length pre \<noteq> length front"
  proof
    assume eq: "length pre = length front"
    have "response ! length pre = CHR ''{''" unfolding p(1) by simp
    moreover have "response ! length front = CHR ''}''" unfolding f(1) by simp
    ultimately show False using eq by simp
  qed
  have lt: "length pre < length front" using le ne by simp
  have "take (length front) response = front" unfolding f(1) by simp
  moreover have "take (length front) response = pre @ CHR ''{'' # take (length front - length pre - 1) rest"
    unfolding p(1) using lt by (simp add: take_Cons')
  ultimately have fr: "front = pre @ CHR ''{'' # take (length front - length pre - 1) rest" by simp
  define mid where "mid = take (length front - length pre - 1) rest"
  have r: "response = pre @ ''{'' @ mid @ ''}'' @ post"
    using f(1) fr by (simp add: mid_def)
  have "json_span response = Some (''{'' @ mid @ ''}'')"
    unfolding r by (rule json_span_first_last[OF p(2) f(2)])
  with assms have "json_text = ''{'' @ mid @ ''}''" by simp
  with r p(2) f(2) show ?thesis by blast
qed

lemma identify_no_name:
  assumes "chat_completion env (CapabilityPrompt url title (take 15 headings) (take 3000 content))
             = Inr response"
    and "json_span response = Some json_text"
    and "loads_capability env json_text = Some data"
    and "\<not> names_capability data"
  shows "identify_article_capability env title headings content url
           = Inl (Exception ''Failed to identify article capability'')"
  using assms
  by (cases data; cases "cap_name (case data of Val c \<Rightarrow> c)")
     (auto simp: identify_article_capability_def names_capability_def get_def truthy_str_def
       split: jfield.splits)

lemma identify_named:
  assumes "chat_completion env (CapabilityPrompt url title (take 15 headings) (take 3000 content))
             = Inr response"
    and "json_span response = Some json_text"
    and "loads_capability env json_text = Some (Val c)"
    and "names_capability (Val c)"
  shows "identify_article_capability env title headings content url = Inr c"
  using assms
  by (auto simp: identify_article_capability_def names_capability_def get_def truthy_str_def
       capability_nonempty_def split: jfield.splits)

lemma scrape_url_fetched:
  assumes "scrape_url env st url = (r, st1)"
  shows "st1 = st\<lparr>fetched := fetched st @ [url]\<rparr>"
  using assms
  by (auto simp: scrape_url_def article_fetch_page_def Let_def split: sum.splits if_splits)

text \<open>
  Claim C7. Capability identification reads the oracle's text from its first \<open>{\<close> to its
  last \<open>}\<close>. When there is no such span the identification fails with the error
  "Failed to identify article capability - invalid JSON response"; when the parsed object
  has no capability with a non-empty name it fails with "Failed to identify article
  capability"; and it succeeds when the name is there. Whatever error the identification
  raises is the result of the analysis, and the agent's state is as before it: no
  competitor page has been requested. In the whole pipeline the only page requested is
  the article.
\<close>

theorem capability_identification_fails_hard:
  "(json_span response = Some json_text \<longleftrightarrow>
      (\<exists>pre mid post. response = pre @ ''{'' @ mid @ ''}'' @ post \<and> CHR ''{'' \<notin> set pre
         \<and> CHR ''}'' \<notin> set post \<and> json_text = ''{'' @ mid @ ''}''))
   \<and> (chat_completion env (CapabilityPrompt url title (take 15 headings) (take 3000 content))
         = Inr response \<and> json_span response = None
       \<longrightarrow> identify_article_capability env title headings content url
             = Inl (Exception ''Failed to identify article capability - invalid JSON response''))
   \<and> (chat_completion env (CapabilityPrompt url title (take 15 headings) (take 3000 content))
         = Inr response \<and> json_span response = Some json_text
         \<and> loads_capability env json_text = Some data \<and> \<not> names_capability data
       \<longrightarrow> identify_article_capability env title headings content url
             = Inl (Exception ''Failed to identify article capability''))
   \<and> (chat_completion env (CapabilityPrompt url title (take 15 headings) (take 3000 content))
         = Inr response \<and> json_span response = Some json_text
         \<and> loads_capability env json_text = Some (Val c) \<and> names_capability (Val c)
       \<longrightarrow> identify_article_capability env title headings content url = Inr c)
   \<and> (identify_article_capability env title headings content url = Inl e
         \<and> PRODUCT_COMPETITORS product \<noteq> None
       \<longrightarrow> analyze_competitor_keywords env st article_keywords product time_range title content
             headings url = (Inl e, st))
   \<and> (PRODUCT_COMPETITORS product \<noteq> None
         \<and> scrape_url env st url = (Inr scraped, st1)
         \<and> extract_article_keywords env (sa_title scraped) (sa_headings scraped)
             (sa_content scraped) url time_range = Inr article_keywords
         \<and> identify_article_capability env (sa_title scraped) (sa_headings scraped)
             (sa_content scraped) url = Inl e
       \<longrightarrow> full_seo_analysis env st url product time_range
             = (Inl e, st\<lparr>fetched := fetched st @ [url]\<rparr>))"
proof -
  have c1: "json_span response = Some json_text \<longleftrightarrow>
      (\<exists>pre mid post. response = pre @ ''{'' @ mid @ ''}'' @ post \<and> CHR ''{'' \<notin> set pre
         \<and> CHR ''}'' \<notin> set post \<and> json_text = ''{'' @ mid @ ''}'')"
    using json_span_Some json_span_first_last by blast
  have c2: "chat_completion env (CapabilityPrompt url title (take 15 headings) (take 3000 content))
         = Inr response \<and> json_span response = None
       \<longrightarrow> identify_article_capability env title headings content url
             = Inl (Exception ''Failed to identify article capability - invalid JSON response'')"
    by (simp add: identify_article_capability_def)
  have c3: "chat_completion env (CapabilityPrompt url title (take 15 headings) (take 3000 content))
         = Inr response \<and> json_span response = Some json_text
         \<and> loads_capability env json_text = Some data \<and> \<not> names_capability data
       \<longrightarrow> identify_article_capability env title headings content url
             = Inl (Exception ''Failed to identify article capability'')"
    using identify_no_name by blast
  have c4: "chat_completion env (CapabilityPrompt url title (take 15 headings) (take 3000 content))
         = Inr response \<and> json_span response = Some json_text
         \<and> loads_capability env json_text = Some (Val c) \<and> names_capability (Val c)
       \<longrightarrow> identify_article_capability env title headings content url = Inr c"
    using identify_named by blast
  have c5: "identify_article_capability env title headings content url = Inl e
         \<and> PRODUCT_COMPETITORS product \<noteq> None
       \<longrightarrow> analyze_competitor_keywords env st article_keywords product time_range title content
             headings url = (Inl e, st)"
    by (auto simp: analyze_competitor_keywords_def get_competitors_def)
  have c6: "PRODUCT_COMPETITORS product \<noteq> None
         \<and> scrape_url env st url = (Inr scraped, st1)
         \<and> extract_article_keywords env (sa_title scraped) (sa_headings scraped)
             (sa_content scraped) url time_range = Inr article_keywords
         \<and> identify_article_capability env (sa_title scraped) (sa_headings scraped)
             (sa_content scraped) url = Inl e
       \<longrightarrow> full_seo_analysis env st url product time_range
             = (Inl e, st\<lparr>fetched := fetched st @ [url]\<rparr>)"
  proof (intro impI, elim conjE)
    assume a: "PRODUCT_COMPETITORS product \<noteq> None"
      "scrape_url env st url = (Inr scraped, st1)"
      "extract_article_keywords env (sa_title scraped) (sa_headings scraped)
             (sa_content scraped) url time_range = Inr article_keywords"
      "identify_article_capability env (sa_title scraped) (sa_headings scraped)
             (sa_content scraped) url = Inl e"
    have s: "st1 = st\<lparr>fetched := fetched st @ [url]\<rparr>" by (rule scrape_url_fetched[OF a(2)])
    have "analyze_competitor_keywords env st1 article_keywords product time_range
            (sa_title scraped) (sa_content scraped) (sa_headings scraped) url = (Inl e, st1)"
      using a(1) a(4) by (auto simp: analyze_competitor_keywords_def get_competitors_def)
    then show "full_seo_analysis env st url product time_range
             = (Inl e, st\<lparr>fetched := fetched st @ [url]\<rparr>)"
      using a(1) a(2) a(3) s by (auto simp: full_seo_analysis_def get_competitors_def)
  qed
  show ?thesis by (intro conjI c1 c2 c3 c4 c5 c6)
qed

lemma ex_capability_chat:
  "chat_completion (ex_capability_env response c) (CapabilityPrompt url title hs body) = Inr response"
  by (simp add: ex_capability_env_def ex_env_def)

lemma ex_capability_loads:
  "loads_capability (ex_capability_env response c) ex_capability_json = Some (Val c)"
  by (simp add: ex_capability_env_def ex_env_def)

lemma json_span_no_object: "json_span ''no object here'' = None"
  by code_simp

theorem capability_identification_fails_hard_witness:
  "json_span ex_capability_response = Some ex_capability_json
   \<and> identify_article_capability (ex_capability_env ''no object here'' ex_empty_capability)
        ''Title'' [] ''Body'' ''https://example.com/''
      = Inl (Exception ''Failed to identify article capability - invalid JSON response'')
   \<and> identify_article_capability (ex_capability_env ex_capability_response ex_empty_capability)
        ''Title'' [] ''Body'' ''https://example.com/''
      = Inl (Exception ''Failed to identify article capability'')
   \<and> identify_article_capability (ex_capability_env ex_capability_response ex_named_capability)
        ''Title'' [] ''Body'' ''https://example.com/''
      = Inr ex_named_capability
   \<and> analyze_competitor_keywords (ex_capability_env ex_capability_response ex_empty_capability)
        ex_state [] ''Forms'' ''month'' ''Title'' ''Body'' [] ''https://example.com/''
      = (Inl (Exception ''Failed to identify article capability''), ex_state)"
proof -
  have ex: "\<exists>pre mid post. ex_capability_response = pre @ ''{'' @ mid @ ''}'' @ post
      \<and> CHR ''{'' \<notin> set pre \<and> CHR ''}'' \<notin> set post \<and> ex_capability_json = ''{'' @ mid @ ''}''"
    by (intro exI[of _ "''Here: ''"] exI[of _ "[CHR 0x22] @ ''capability'' @ [CHR 0x22] @ '': {}''"]
          exI[of _ "'' done''"])
       (simp add: ex_capability_response_def ex_capability_json_def)
  have span: "json_span ex_capability_response = Some ex_capability_json"
    by (rule capability_identification_fails_hard[THEN conjunct1, THEN iffD2, OF ex])
  have a: "identify_article_capability (ex_capability_env ''no object here'' ex_empty_capability)
        ''Title'' [] ''Body'' ''https://example.com/''
      = Inl (Exception ''Failed to identify article capability - invalid JSON response'')"
    by (rule capability_identification_fails_hard[THEN conjunct2, THEN conjunct1, THEN mp,
          OF conjI[OF ex_capability_chat json_span_no_object]])
  have nn: "\<not> names_capability (Val ex_empty_capability)"
    by (simp add: names_capability_def ex_empty_capability_def)
  have b: "identify_article_capability (ex_capability_env ex_capability_response ex_empty_capability)
        ''Title'' [] ''Body'' ''https://example.com/''
      = Inl (Exception ''Failed to identify article capability'')"
    by (rule capability_identification_fails_hard[THEN conjunct2, THEN conjunct2, THEN conjunct1,
          THEN mp, OF conjI[OF ex_capability_chat conjI[OF span conjI[OF ex_capability_loads nn]]]])
  have n: "names_capability (Val ex_named_capability)"
    by (simp add: names_capability_def ex_named_capability_def ex_empty_capability_def)
  have c: "identify_article_capability (ex_capability_env ex_capability_response ex_named_capability)
        ''Title'' [] ''Body'' ''https://example.com/''
      = Inr ex_named_capability"
    by (rule capability_identification_fails_hard[THEN conjunct2, THEN conjunct2, THEN conjunct2,
          THEN conjunct1, THEN mp,
          OF conjI[OF ex_capability_chat conjI[OF span conjI[OF ex_capability_loads n]]]])
  have p: "PRODUCT_COMPETITORS ''Forms'' \<noteq> None"
    by (simp add: PRODUCT_COMPETITORS_def)
  have d: "analyze_competitor_keywords (ex_capability_env ex_capability_response ex_empty_capability)
        ex_state [] ''Forms'' ''month'' ''Title'' ''Body'' [] ''https://example.com/''
      = (Inl (Exception ''Failed to identify article capability''), ex_state)"
    by (rule capability_identification_fails_hard[THEN conjunct2, THEN conjunct2, THEN conjunct2,
          THEN conjunct2, THEN conjunct1, THEN mp, OF conjI[OF b p]])
  show ?thesis by (intro conjI span a b c d)
qed

text \<open>
  Claim C8. A request whose \<open>time_range\<close> is not \<open>week\<close>, \<open>month\<close> or \<open>year\<close> is rejected
  with an error that does not depend on the oracle or on any page, and the agent's state
  is left as it was: nothing has been requested. For a known product the error is the
  status 400 with the detail "time_range must be: week, month, or year" (for an unknown
  product the product's check, which stands first, rejects the request in the same
  way). The volume field is \<open>weekly_volume\<close>, \<open>monthly_volume\<close> or \<open>yearly_volume\<close> for the
  three valid values, and its selection raises for every other value.
\<close>

theorem invalid_time_range_rejected:
  "(time_range \<notin> {''week'', ''month'', ''year''} \<longrightarrow>
      (\<exists>e. \<forall>env. analyze_url env st url product time_range = (Inl e, st))
      \<and> (PRODUCT_COMPETITORS product \<noteq> None \<longrightarrow>
            analyze_url env st url product time_range
              = (Inl (HTTPException 400 ''time_range must be: week, month, or year''), st))
      \<and> get_volume_field_name time_range
          = Inl (Exception (''Invalid time_range: '' @ time_range
                              @ ''. Must be: week, month, or year'')))
   \<and> get_volume_field_name ''week'' = Inr ''weekly_volume''
   \<and> get_volume_field_name ''month'' = Inr ''monthly_volume''
   \<and> get_volume_field_name ''year'' = Inr ''yearly_volume''"
proof -
  have c1: "time_range \<notin> {''week'', ''month'', ''year''} \<longrightarrow>
      (\<exists>e. \<forall>env. analyze_url env st url product time_range = (Inl e, st))"
  proof
    assume t: "time_range \<notin> {''week'', ''month'', ''year''}"
    show "\<exists>e. \<forall>env. analyze_url env st url product time_range = (Inl e, st)"
    proof (cases "PRODUCT_COMPETITORS product = None")
      case True
      then show ?thesis by (simp add: analyze_url_def)
    next
      case False
      then show ?thesis using t by (simp add: analyze_url_def)
    qed
  qed
  have c2: "time_range \<notin> {''week'', ''month'', ''year''} \<longrightarrow>
      (PRODUCT_COMPETITORS product \<noteq> None \<longrightarrow>
            analyze_url env st url product time_range
              = (Inl (HTTPException 400 ''time_range must be: week, month, or year''), st))"
    by (simp add: analyze_url_def)
  have c3: "time_range \<notin> {''week'', ''month'', ''year''} \<longrightarrow>
      get_volume_field_name time_range
          = Inl (Exception (''Invalid time_range: '' @ time_range
                              @ ''. Must be: week, month, or year''))"
    by (simp add: get_volume_field_name_def)
  have c4: "get_volume_field_name ''week'' = Inr ''weekly_volume''"
    by (simp add: get_volume_field_name_def)
  have c5: "get_volume_field_name ''month'' = Inr ''monthly_volume''"
    by (simp add: get_volume_field_name_def)
  have c6: "get_volume_field_name ''year'' = Inr ''yearly_volume''"
    by (simp add: get_volume_field_name_def)
  show ?thesis using c1 c2 c3 c4 c5 c6 by blast
qed

theorem invalid_time_range_rejected_witness:
  "analyze_url (ex_capability_env ex_capability_response ex_named_capability) ex_state
     ''https://experienceleague.adobe.com/en/docs/experience-manager-cloud-service/content/forms/x''
     ''Forms'' ''quarter''
   = (Inl (HTTPException 400 ''time_range must be: week, month, or year''), ex_state)
   \<and> get_volume_field_name ''quarter''
       = Inl (Exception ''Invalid time_range: quarter. Must be: week, month, or year'')"
proof -
  have q: "''quarter'' \<notin> {''week'', ''month'', ''year''}" by simp
  have p: "PRODUCT_COMPETITORS ''Forms'' \<noteq> None"
    by (simp add: PRODUCT_COMPETITORS_def)
  note r = invalid_time_range_rejected[THEN conjunct1, THEN mp, OF q]
  have a: "analyze_url (ex_capability_env ex_capability_response ex_named_capability) ex_state
     ''https://experienceleague.adobe.com/en/docs/experience-manager-cloud-service/content/forms/x''
     ''Forms'' ''quarter''
   = (Inl (HTTPException 400 ''time_range must be: week, month, or year''), ex_state)"
    by (rule r[THEN conjunct2, THEN conjunct1, THEN mp, OF p])
  have b: "get_volume_field_name ''quarter''
       = Inl (Exception ''Invalid time_range: quarter. Must be: week, month, or year'')"
    using r[THEN conjunct2, THEN conjunct2] by simp
  show ?thesis by (intro conjI a b)
qed

end
